theory Spec2Isabelle
  imports Main "HOL-Library.Word" "HOL-Library.AList"
begin

unbundle bit_operations_syntax

section \<open>Machine types and constants\<close>

type_synonym u8 = "8 word"
type_synonym u16 = "16 word"
type_synonym u32 = "32 word"
type_synonym u64 = "64 word"

text \<open>The opcode bytes and the probe prefix of \<^verbatim>\<open>sdtconvert.c\<close> (lines 52-58).\<close>

definition AMD64_CALL :: u8 where "AMD64_CALL = 0xe8"
definition AMD64_JMP32 :: u8 where "AMD64_JMP32 = 0xe9"
definition AMD64_NOP :: u8 where "AMD64_NOP = 0x90"
definition AMD64_RETQ :: u8 where "AMD64_RETQ = 0xc3"

definition probe_prefix :: string where "probe_prefix = ''__dtrace_probe_''"
definition prefixlen :: nat where "prefixlen = length probe_prefix"

text \<open>
  Modelled from the spec: the constants and macros of the system headers
  \<^verbatim>\<open><elf.h>\<close> and \<^verbatim>\<open><gelf.h>\<close>, which are not part of the repository. The spec
  calls them the relocatable type, the x86-64 machine, the implicit- and explicit-addend
  relocation section types, the null relocation type, and the symbol-index and type
  fields of a relocation's 64-bit info word. Their values are those of the ELF-64 format:
  the symbol index is the upper and the type the lower 32 bits of the info word
  (\<^verbatim>\<open>(info) >> 32\<close> and \<^verbatim>\<open>(info) & 0xffffffffL\<close>, both of the 64-bit type of the info
  word); a symbol's binding is the upper and its type the lower 4 bits of its info byte.
\<close>

definition ET_REL :: u16 where "ET_REL = 1"
definition EM_X86_64 :: u16 where "EM_X86_64 = 62"
definition SHT_PROGBITS :: u32 where "SHT_PROGBITS = 1"
definition SHT_STRTAB :: u32 where "SHT_STRTAB = 3"
definition SHT_RELA :: u32 where "SHT_RELA = 4"
definition SHT_REL :: u32 where "SHT_REL = 9"
definition SHF_ALLOC :: u64 where "SHF_ALLOC = 2"
definition STT_NOTYPE :: u8 where "STT_NOTYPE = 0"
definition STB_GLOBAL :: u8 where "STB_GLOBAL = 1"
definition R_X86_64_NONE :: u64 where "R_X86_64_NONE = 0"

definition GELF_R_SYM :: "u64 \<Rightarrow> u64" where
  "GELF_R_SYM info = drop_bit 32 info"

definition GELF_R_TYPE :: "u64 \<Rightarrow> u64" where
  "GELF_R_TYPE info = info AND 0xffffffff"

definition GELF_ST_BIND :: "u8 \<Rightarrow> u8" where
  "GELF_ST_BIND i = drop_bit 4 i"

definition GELF_ST_TYPE :: "u8 \<Rightarrow> u8" where
  "GELF_ST_TYPE i = i AND 0xf"

section \<open>The ELF object as the access library presents it\<close>

text \<open>
  The section header in the generic 64-bit form (\<^verbatim>\<open>GElf_Shdr\<close>): the name, type, link
  and info fields are 32 bits wide, the others 64. The address and file offset fields are
  never read or written by the program and are left out.
\<close>

record GElf_Shdr =
  sh_name :: u32
  sh_type :: u32
  sh_flags :: u64
  sh_size :: u64
  sh_link :: u32
  sh_info :: u32
  sh_addralign :: u64
  sh_entsize :: u64

record GElf_Ehdr =
  e_type :: u16
  e_machine :: u16

record GElf_Sym =
  st_name :: u32
  st_info :: u8

record GElf_Rel =
  r_offset :: u64
  r_info :: u64

record GElf_Rela = GElf_Rel +
  r_addend :: u64

text \<open>
  A data buffer of a section (\<^verbatim>\<open>Elf_Data\<close>), under the view the program reads it with:
  raw bytes (the text that is patched, the instance records that are emitted), the
  characters of a string table, symbols, or relocation entries of either shape. A file in
  which one section is read under two views is outside the model; reading a buffer under
  a view it does not have is the fault \<open>Fault_view\<close>.
\<close>

datatype Elf_Data =
    DBytes "u8 list"
  | DStr string
  | DSym "GElf_Sym list"
  | DRel "GElf_Rel list"
  | DRela "GElf_Rela list"

record Elf_Scn =
  shdr :: GElf_Shdr
  sdata :: "Elf_Data list"

record Elf =
  ehdr :: GElf_Ehdr
  shstrndx :: nat
  scns :: "Elf_Scn list"

record probe_instance =
  symname :: string
  offset :: u64

text \<open>
  Every \<^verbatim>\<open>errx(1, ...)\<close> of the source is a constructor. The faults stand for what
  the source does not check and C leaves undefined, or ends with a signal: a read or
  write outside a buffer, a null string handed to a string function, a division by zero,
  a failed \<^verbatim>\<open>assert\<close>, and (in the model only) a buffer read under a view it does not
  have.
\<close>

datatype error =
    E_getscn_shdrstrtab
  | E_getdata_shdrstrtab
  | E_strptr
  | E_symbol_type u8 string
  | E_binding u8 string
  | E_opcode u8 string u64
  | E_addr string u64
  | E_machine u16
  | E_reloc_target
  | E_target_data
  | E_symtab
  | E_getrel
  | E_symdata
  | E_symbol_index u32
  | E_open string
  | E_getehdr
  | E_no_probe_set
  | E_no_probe_symtab
  | E_no_probe_reloc_scn
  | E_no_probe_reloc string
  | Fault_oob
  | Fault_null
  | Fault_div0
  | Fault_assert
  | Fault_view

subsection \<open>Access primitives\<close>

text \<open>
  Modelled from the spec: the ELF access library (\<^verbatim>\<open>libelf\<close>) is not part of the
  repository. The spec describes it as section lookup by index, iteration over the
  sections, a section's data buffers in file order with new buffers appended, symbol and
  string access, new sections appended, and a flush; the record types above and the
  primitives here are that interface. Calls that the source checks and that cannot fail
  on an object that was opened (\<^verbatim>\<open>gelf_getshdr\<close>, \<^verbatim>\<open>gelf_update_shdr\<close>,
  \<^verbatim>\<open>elf_newdata\<close>, \<^verbatim>\<open>elf_newscn\<close>, \<^verbatim>\<open>elf_flagdata\<close>, \<^verbatim>\<open>elf_update\<close>) have no error
  branch, and the dirty flags are not modelled.

  \<^verbatim>\<open>elf_getscn\<close>: the section at an index, or nothing past the end of the table.
\<close>

definition elf_getscn :: "Elf \<Rightarrow> nat \<Rightarrow> Elf_Scn option" where
  "elf_getscn e ndx = (if ndx < length (scns e) then Some (scns e ! ndx) else None)"

text \<open>\<^verbatim>\<open>elf_getdata(scn, NULL)\<close>: the first data buffer of a section.\<close>

definition elf_getdata :: "Elf_Scn \<Rightarrow> Elf_Data option" where
  "elf_getdata scn = (case sdata scn of [] \<Rightarrow> None | d # _ \<Rightarrow> Some d)"

text \<open>
  The characters of a string table: its buffers one after the other (the buffers of a
  string table have alignment 1). A buffer that does not hold characters makes the
  lookup fail.
\<close>

fun strtab_chars :: "Elf_Data list \<Rightarrow> string option" where
  "strtab_chars [] = Some []"
| "strtab_chars (DStr s # ds) =
     (case strtab_chars ds of None \<Rightarrow> None | Some r \<Rightarrow> Some (s @ r))"
| "strtab_chars (_ # ds) = None"

text \<open>
  \<^verbatim>\<open>elf_strptr\<close>: the NUL-terminated string at an offset of a string table section, or
  nothing (the null pointer) when the section does not exist, is not a string table, or
  the offset is not below the header's size.
\<close>

definition elf_strptr :: "Elf \<Rightarrow> nat \<Rightarrow> u64 \<Rightarrow> string option" where
  "elf_strptr e ndx off =
     (case elf_getscn e ndx of
        None \<Rightarrow> None
      | Some s \<Rightarrow>
          if sh_type (shdr s) = SHT_STRTAB \<and> off < sh_size (shdr s) then
            (case strtab_chars (sdata s) of
               None \<Rightarrow> None
             | Some cs \<Rightarrow>
                 if unat off < length cs
                 then Some (takeWhile (\<lambda>c. c \<noteq> CHR 0x00) (drop (unat off) cs))
                 else None)
          else None)"

section \<open>The functions of \<^verbatim>\<open>sdtconvert.c\<close>\<close>

subsection \<open>\<^verbatim>\<open>get_scn_name\<close> (lines 135-146)\<close>

definition get_scn_name :: "Elf \<Rightarrow> Elf_Scn \<Rightarrow> string option" where
  "get_scn_name e scn = elf_strptr e (shstrndx e) (ucast (sh_name (shdr scn)))"

subsection \<open>\<^verbatim>\<open>symlookup\<close> (lines 468-479)\<close>

text \<open>
  The index arrives as a C \<^verbatim>\<open>int\<close>. The check compares the buffer's size in bytes with
  \<^verbatim>\<open>(ndx + 1) * sizeof(GElf_Sym)\<close>, computed in the 64-bit unsigned type after the
  \<^verbatim>\<open>int\<close> sum is sign-extended (the sum wraps here at the largest \<^verbatim>\<open>int\<close>, where C
  leaves it undefined); a symbol is 24 bytes. An index that passes the check and is still
  outside the table (\<open>-1\<close>) is an out-of-bounds read.
\<close>

definition symlookup :: "Elf_Scn \<Rightarrow> u32 \<Rightarrow> error + GElf_Sym" where
  "symlookup symtab ndx =
     (case elf_getdata symtab of
        None \<Rightarrow> Inl E_symdata
      | Some (DSym syms) \<Rightarrow>
          if (of_nat (length syms * 24) :: u64) < scast (ndx + 1) * 24
          then Inl (E_symbol_index ndx)
          else if 0 \<le> sint ndx \<and> nat (sint ndx) < length syms
          then Inr (syms ! nat (sint ndx))
          else Inl Fault_oob
      | Some _ \<Rightarrow> Inl Fault_view)"

subsection \<open>\<^verbatim>\<open>process_rel\<close> (lines 149-216)\<close>

text \<open>A read of \<^verbatim>\<open>target[i]\<close>, with the index computed in 64-bit unsigned arithmetic.\<close>

definition rd :: "u8 list \<Rightarrow> u64 \<Rightarrow> error + u8" where
  "rd buf i = (if unat i < length buf then Inr (buf ! unat i) else Inl Fault_oob)"

text \<open>\<^verbatim>\<open>memset(&buf[start], c, n)\<close>.\<close>

definition memset :: "u8 list \<Rightarrow> nat \<Rightarrow> u8 \<Rightarrow> nat \<Rightarrow> error + u8 list" where
  "memset buf start c n =
     (if start + n \<le> length buf
      then Inr (take start buf @ replicate n c @ drop (start + n) buf)
      else Inl Fault_oob)"

text \<open>
  The x86-64 case of the switch, on the text buffer (lines 178-195): the opcode check,
  the four displacement bytes checked left to right as \<^verbatim>\<open>||\<close> evaluates them, the five
  NOPs, and the RET of a tail call.
\<close>

definition patch_amd64 :: "u8 list \<Rightarrow> u64 \<Rightarrow> string \<Rightarrow> error + u8 list" where
  "patch_amd64 target off nm =
     (case rd target (off - 1) of
        Inl err \<Rightarrow> Inl err
      | Inr opc \<Rightarrow>
          if opc \<noteq> AMD64_CALL \<and> opc \<noteq> AMD64_JMP32 then Inl (E_opcode opc nm off)
          else
            (case rd target (off + 0) of
               Inl err \<Rightarrow> Inl err
             | Inr b0 \<Rightarrow>
                 if b0 \<noteq> 0 then Inl (E_addr nm off)
                 else
                   (case rd target (off + 1) of
                      Inl err \<Rightarrow> Inl err
                    | Inr b1 \<Rightarrow>
                        if b1 \<noteq> 0 then Inl (E_addr nm off)
                        else
                          (case rd target (off + 2) of
                             Inl err \<Rightarrow> Inl err
                           | Inr b2 \<Rightarrow>
                               if b2 \<noteq> 0 then Inl (E_addr nm off)
                               else
                                 (case rd target (off + 3) of
                                    Inl err \<Rightarrow> Inl err
                                  | Inr b3 \<Rightarrow>
                                      if b3 \<noteq> 0 then Inl (E_addr nm off)
                                      else
                                        (case memset target (unat (off - 1)) AMD64_NOP 5 of
                                           Inl err \<Rightarrow> Inl err
                                         | Inr target' \<Rightarrow>
                                             if opc = AMD64_JMP32
                                             then Inr (target'[unat (off - 1) := AMD64_RETQ])
                                             else Inr target'))))))"

text \<open>
  The result is the C return value (1: not interested, 0: rewritten) with the text buffer,
  the info word and the instance list as the call leaves them. The new instance is
  inserted at the head of the list (\<^verbatim>\<open>SLIST_INSERT_HEAD\<close>).
\<close>

definition process_rel ::
  "Elf \<Rightarrow> GElf_Ehdr \<Rightarrow> GElf_Shdr \<Rightarrow> Elf_Scn \<Rightarrow> u8 list \<Rightarrow> u64 \<Rightarrow> u64 \<Rightarrow> probe_instance list
     \<Rightarrow> error + (int \<times> u8 list \<times> u64 \<times> probe_instance list)" where
  "process_rel e eh symshdr symtab target off info plist =
     (case symlookup symtab (ucast (GELF_R_SYM info)) of
        Inl err \<Rightarrow> Inl err
      | Inr sm \<Rightarrow>
          (case elf_strptr e (unat (sh_link symshdr)) (ucast (st_name sm)) of
             None \<Rightarrow> Inl E_strptr
           | Some nm \<Rightarrow>
               if take prefixlen nm \<noteq> probe_prefix then Inr (1, target, info, plist)
               else if GELF_ST_TYPE (st_info sm) \<noteq> STT_NOTYPE
               then Inl (E_symbol_type (GELF_ST_TYPE (st_info sm)) nm)
               else if GELF_ST_BIND (st_info sm) \<noteq> STB_GLOBAL
               then Inl (E_binding (GELF_ST_BIND (st_info sm)) nm)
               else if e_machine eh = EM_X86_64 then
                 (case patch_amd64 target off nm of
                    Inl err \<Rightarrow> Inl err
                  | Inr target' \<Rightarrow>
                      Inr (0, target',
                           (info AND NOT (GELF_R_TYPE info)) OR R_X86_64_NONE,
                           \<lparr>symname = nm, offset = off\<rparr> # plist))
               else Inl (E_machine (e_machine eh))))"

subsection \<open>\<^verbatim>\<open>process_reloc_scn\<close> (lines 218-288)\<close>

text \<open>
  \<^verbatim>\<open>gelf_getrel\<close> and \<^verbatim>\<open>gelf_getrela\<close> take the entry index as an \<^verbatim>\<open>int\<close> and fail
  when it is negative or past the end of the buffer. The source's counter is a 32-bit
  unsigned integer, so from \<open>2^31 = 2147483648\<close> on the index it passes is
  negative.
\<close>

definition gelf_ndx_ok :: "nat \<Rightarrow> nat \<Rightarrow> bool" where
  "gelf_ndx_ok i len = (i < len \<and> int i < 2147483648)"

text \<open>
  The inner loop (lines 250-286) over the entries \<open>i < n\<close> of one data buffer, where \<open>n\<close>
  is \<^verbatim>\<open>sh_size / sh_entsize\<close>. When \<^verbatim>\<open>process_rel\<close> returns 0 the entry is written
  back with the new info word; its other fields are the ones that were read. The loop is
  the same for both shapes of entry, so it is written once, over the fields they share.
\<close>

function rel_loop ::
  "Elf \<Rightarrow> GElf_Ehdr \<Rightarrow> GElf_Shdr \<Rightarrow> Elf_Scn \<Rightarrow> nat \<Rightarrow> nat \<Rightarrow> 'a GElf_Rel_scheme list \<Rightarrow> u8 list
     \<Rightarrow> probe_instance list
     \<Rightarrow> error + ('a GElf_Rel_scheme list \<times> u8 list \<times> probe_instance list)" where
  "rel_loop e eh symshdr symscn n i rels target plist =
     (if i < n then
        (if gelf_ndx_ok i (length rels) then
           (case process_rel e eh symshdr symscn target
                   (r_offset (rels ! i)) (r_info (rels ! i)) plist of
              Inl err \<Rightarrow> Inl err
            | Inr (ret, target', info', plist') \<Rightarrow>
                rel_loop e eh symshdr symscn n (Suc i)
                  (if ret = 0 then rels[i := (rels ! i)\<lparr>r_info := info'\<rparr>] else rels)
                  target' plist')
         else Inl E_getrel)
      else Inr (rels, target, plist))"
  by pat_completeness auto
termination
  by (relation "measure (\<lambda>(e, eh, symshdr, symscn, n, i, rels, target, plist). n - i)") auto

text \<open>Writing a section's first data buffer back into the object.\<close>

definition set_data0 :: "Elf \<Rightarrow> nat \<Rightarrow> Elf_Data \<Rightarrow> Elf" where
  "set_data0 e ndx d =
     e\<lparr>scns := (scns e)[ndx := (scns e ! ndx)\<lparr>sdata := d # tl (sdata (scns e ! ndx))\<rparr>]\<rparr>"

text \<open>
  The section is given by its index \<open>scn\<close>; \<open>sh\<close> is the caller's copy of its header.
  The outer loop (line 249) walks the section's data buffers, but the entry counter is
  not reset between buffers: the first buffer's inner loop leaves it at \<open>n\<close>, so only the
  first buffer is ever scanned. The text buffer and the relocation buffer are updated in
  place; here they are written back into the object when the loop is done. The text is the
  target section's first buffer, read as bytes. The lookups of the loop read symbols and
  strings, which are other buffers than the two the loop changes.
\<close>

definition process_reloc_scn ::
  "Elf \<Rightarrow> GElf_Ehdr \<Rightarrow> GElf_Shdr \<Rightarrow> nat \<Rightarrow> probe_instance list
     \<Rightarrow> error + (Elf \<times> probe_instance list)" where
  "process_reloc_scn e eh sh scn plist =
     (case elf_getscn e (unat (sh_info sh)) of
        None \<Rightarrow> Inl E_reloc_target
      | Some targscn \<Rightarrow>
     (case elf_getdata targscn of
        None \<Rightarrow> Inl E_target_data
      | Some targdata \<Rightarrow>
     (case get_scn_name e targscn of
        None \<Rightarrow> Inl Fault_null
      | Some nm \<Rightarrow>
          if nm \<noteq> ''.text'' then Inr (e, plist)
          else
     (case elf_getscn e (unat (sh_link sh)) of
        None \<Rightarrow> Inl E_symtab
      | Some symscn \<Rightarrow>
     (case elf_getdata (scns e ! scn) of
        None \<Rightarrow> Inr (e, plist)
      | Some reldata \<Rightarrow>
          if sh_entsize sh = 0 then Inl Fault_div0
          else if unat (sh_size sh div sh_entsize sh) = 0 then Inr (e, plist)
          else if sh_type sh = SHT_REL then
            (case reldata of
               DRel rels \<Rightarrow>
                 (case targdata of
                    DBytes target \<Rightarrow>
                      (case rel_loop e eh (shdr symscn) symscn
                              (unat (sh_size sh div sh_entsize sh)) 0 rels target plist of
                         Inl err \<Rightarrow> Inl err
                       | Inr (rels', target', plist') \<Rightarrow>
                           Inr (set_data0 (set_data0 e (unat (sh_info sh)) (DBytes target'))
                                  scn (DRel rels'), plist'))
                  | _ \<Rightarrow> Inl Fault_view)
             | _ \<Rightarrow> Inl E_getrel)
          else if sh_type sh = SHT_RELA then
            (case reldata of
               DRela rels \<Rightarrow>
                 (case targdata of
                    DBytes target \<Rightarrow>
                      (case rel_loop e eh (shdr symscn) symscn
                              (unat (sh_size sh div sh_entsize sh)) 0 rels target plist of
                         Inl err \<Rightarrow> Inl err
                       | Inr (rels', target', plist') \<Rightarrow>
                           Inr (set_data0 (set_data0 e (unat (sh_info sh)) (DBytes target'))
                                  scn (DRela rels'), plist'))
                  | _ \<Rightarrow> Inl Fault_view)
             | _ \<Rightarrow> Inl E_getrel)
          else Inl Fault_assert)))))"

subsection \<open>\<^verbatim>\<open>add_section\<close> (lines 84-133)\<close>

definition zero_shdr :: GElf_Shdr where
  "zero_shdr = \<lparr>sh_name = 0, sh_type = 0, sh_flags = 0, sh_size = 0, sh_link = 0,
                 sh_info = 0, sh_addralign = 0, sh_entsize = 0\<rparr>"

text \<open>
  The name and its terminating NUL go into a new buffer of the section header string
  table; the new section is appended to the section table with a zeroed header
  (\<^verbatim>\<open>elf_newscn\<close>) and no data. The result is the object and the new section's index.
  The length is a \<^verbatim>\<open>size_t\<close>; the name field of the new header is 32 bits wide.
\<close>

definition add_section :: "Elf \<Rightarrow> string \<Rightarrow> u64 \<Rightarrow> u64 \<Rightarrow> error + (Elf \<times> nat)" where
  "add_section e name type flags =
     (case elf_getscn e (shstrndx e) of
        None \<Rightarrow> Inl E_getscn_shdrstrtab
      | Some strscn \<Rightarrow>
     (case elf_getdata strscn of
        None \<Rightarrow> Inl E_getdata_shdrstrtab
      | Some strdata \<Rightarrow>
          (let len = (of_nat (length name + 1) :: u64);
               strshdr = (shdr strscn)\<lparr>sh_size := sh_size (shdr strscn) + len\<rparr>;
               newshdr = zero_shdr\<lparr>sh_name := ucast (sh_size strshdr - len),
                                   sh_type := ucast type,
                                   sh_flags := flags,
                                   sh_addralign := 8\<rparr>;
               strscn' = \<lparr>shdr = strshdr,
                          sdata = sdata strscn @ [DStr (name @ [CHR 0x00])]\<rparr>
           in Inr (e\<lparr>scns := (scns e)[shstrndx e := strscn']
                                 @ [\<lparr>shdr = newshdr, sdata = []\<rparr>]\<rparr>,
                   length (scns e)))))"

subsection \<open>\<^verbatim>\<open>section_by_name\<close> (lines 456-466)\<close>

text \<open>
  \<^verbatim>\<open>elf_nextscn\<close> walks the sections from index 1 on. A section whose name cannot be
  read hands \<^verbatim>\<open>strcmp\<close> a null pointer.
\<close>

fun section_by_name_from :: "Elf \<Rightarrow> string \<Rightarrow> nat list \<Rightarrow> error + nat option" where
  "section_by_name_from e name [] = Inr None"
| "section_by_name_from e name (i # rest) =
     (case get_scn_name e (scns e ! i) of
        None \<Rightarrow> Inl Fault_null
      | Some nm \<Rightarrow> if nm = name then Inr (Some i) else section_by_name_from e name rest)"

definition section_by_name :: "Elf \<Rightarrow> string \<Rightarrow> error + nat option" where
  "section_by_name e name = section_by_name_from e name [1..<length (scns e)]"

subsection \<open>\<^verbatim>\<open>record_instance\<close> (lines 349-454)\<close>

text \<open>
  Modelled from the spec: \<^verbatim>\<open>struct sdt_instance\<close> of \<^verbatim>\<open><sys/sdt.h>\<close>, which is not
  part of the repository. The spec gives its layout: 8 bytes \<open>probe\<close> (zero) followed by
  8 bytes \<open>offset\<close>, little-endian on x86-64; 16 bytes in all.
\<close>

definition le64 :: "u64 \<Rightarrow> u8 list" where
  "le64 w = map (\<lambda>k. ucast (drop_bit (8 * k) w)) [0..<8]"

definition sdt_instance_bytes :: "u64 \<Rightarrow> u8 list" where
  "sdt_instance_bytes off = replicate 8 0 @ le64 off"

text \<open>
  The search for the relocation section of the probe linker set (lines 391-406): the first
  section of a relocation type whose \<^verbatim>\<open>sh_info\<close> is the probe set's index, with the
  symbol table its \<^verbatim>\<open>sh_link\<close> names.
\<close>

fun find_proberelscn :: "Elf \<Rightarrow> nat \<Rightarrow> nat list \<Rightarrow> error + (nat \<times> Elf_Scn) option" where
  "find_proberelscn e probescn [] = Inr None"
| "find_proberelscn e probescn (j # rest) =
     (if (sh_type (shdr (scns e ! j)) = SHT_REL \<or> sh_type (shdr (scns e ! j)) = SHT_RELA)
         \<and> unat (sh_info (shdr (scns e ! j))) = probescn
      then
        (case elf_getscn e (unat (sh_link (shdr (scns e ! j)))) of
           None \<Rightarrow> Inl E_no_probe_symtab
         | Some symtab \<Rightarrow> Inr (Some (j, symtab)))
      else find_proberelscn e probescn rest)"

text \<open>
  The info words of a data buffer as \<^verbatim>\<open>gelf_getrel\<close> (for \<^verbatim>\<open>SHT_REL\<close>) or
  \<^verbatim>\<open>gelf_getrela\<close> (otherwise) reads them; a buffer of another kind has no entry that
  can be read. The section type is one of the two, by the search above, so the source's
  assertion holds.
\<close>

definition reloc_infos :: "u32 \<Rightarrow> Elf_Data \<Rightarrow> u64 list" where
  "reloc_infos ty d =
     (if ty = SHT_REL
      then (case d of DRel rs \<Rightarrow> map r_info rs | _ \<Rightarrow> [])
      else (case d of DRela rs \<Rightarrow> map r_info rs | _ \<Rightarrow> []))"

text \<open>
  The inner loop of the match (lines 413-439) over one data buffer: a name shorter than
  \<^verbatim>\<open>prefixlen\<close> is skipped; otherwise the name past its first \<^verbatim>\<open>strlen("sdt_")\<close>
  characters is compared with the instance's name past the probe prefix. The result is
  the counter and the flag \<^verbatim>\<open>found\<close> as the loop leaves them; \<^verbatim>\<open>break\<close> leaves the
  counter where it is.
\<close>

function probe_inner ::
  "Elf \<Rightarrow> GElf_Shdr \<Rightarrow> Elf_Scn \<Rightarrow> string \<Rightarrow> nat \<Rightarrow> u64 list \<Rightarrow> nat \<Rightarrow> bool
     \<Rightarrow> error + (nat \<times> bool)" where
  "probe_inner e symshdr symtab isym n infos i found =
     (if i < n then
        (if gelf_ndx_ok i (length infos) then
           (case symlookup symtab (ucast (GELF_R_SYM (infos ! i))) of
              Inl err \<Rightarrow> Inl err
            | Inr sm \<Rightarrow>
                (case elf_strptr e (unat (sh_link symshdr)) (ucast (st_name sm)) of
                   None \<Rightarrow> Inl Fault_null
                 | Some nm \<Rightarrow>
                     if length nm < prefixlen
                     then probe_inner e symshdr symtab isym n infos (Suc i) found
                     else if drop (length ''sdt_'') nm = drop prefixlen isym
                     then Inr (i, True)
                     else probe_inner e symshdr symtab isym n infos (Suc i) found))
         else Inl E_getrel)
      else Inr (i, found))"
  by pat_completeness auto
termination
  by (relation "measure (\<lambda>(e, symshdr, symtab, isym, n, infos, i, found). n - i)") auto

text \<open>
  The outer loop (lines 411-440) over the data buffers of the relocation section. The
  counter and the flag carry over from one buffer to the next.
\<close>

fun probe_outer ::
  "Elf \<Rightarrow> GElf_Shdr \<Rightarrow> Elf_Scn \<Rightarrow> string \<Rightarrow> GElf_Shdr \<Rightarrow> Elf_Data list \<Rightarrow> nat \<Rightarrow> bool
     \<Rightarrow> error + bool" where
  "probe_outer e symshdr symtab isym prs [] i found = Inr found"
| "probe_outer e symshdr symtab isym prs (d # ds) i found =
     (if sh_entsize prs = 0 then Inl Fault_div0
      else
        (case probe_inner e symshdr symtab isym (unat (sh_size prs div sh_entsize prs))
                (reloc_infos (sh_type prs) d) i found of
           Inl err \<Rightarrow> Inl err
         | Inr (i', found') \<Rightarrow> probe_outer e symshdr symtab isym prs ds i' found'))"

text \<open>
  The sections are given by their indices. The parameter \<open>relscn\<close> is unused, as in the
  source (\<^verbatim>\<open>__unused\<close>). The record goes into a new data buffer of the instance section
  at once (\<^verbatim>\<open>elf_newdata\<close>); the header with the grown size is written back at the end
  (line 452).
\<close>

definition record_instance :: "Elf \<Rightarrow> nat \<Rightarrow> nat \<Rightarrow> probe_instance \<Rightarrow> error + Elf" where
  "record_instance e instscn relscn inst =
     (let e1 = e\<lparr>scns := (scns e)[instscn := (scns e ! instscn)
                 \<lparr>sdata := sdata (scns e ! instscn) @ [DBytes (sdt_instance_bytes (offset inst))]\<rparr>]\<rparr>;
          instshdr = (shdr (scns e1 ! instscn))\<lparr>sh_size := sh_size (shdr (scns e1 ! instscn)) + 16\<rparr>
      in
        (case section_by_name e1 ''set_sdt_probes_set'' of
           Inl err \<Rightarrow> Inl err
         | Inr None \<Rightarrow> Inl E_no_probe_set
         | Inr (Some probescn) \<Rightarrow>
        (case find_proberelscn e1 probescn [1..<length (scns e1)] of
           Inl err \<Rightarrow> Inl err
         | Inr None \<Rightarrow> Inl E_no_probe_reloc_scn
         | Inr (Some (proberelscn, symtab)) \<Rightarrow>
        (case probe_outer e1 (shdr symtab) symtab (symname inst) (shdr (scns e1 ! proberelscn))
                (sdata (scns e1 ! proberelscn)) 0 False of
           Inl err \<Rightarrow> Inl err
         | Inr found \<Rightarrow>
             if found
             then Inr (e1\<lparr>scns := (scns e1)[instscn := (scns e1 ! instscn)\<lparr>shdr := instshdr\<rparr>]\<rparr>)
             else Inl (E_no_probe_reloc (symname inst))))))"

subsection \<open>\<^verbatim>\<open>process_obj\<close> (lines 290-347)\<close>

text \<open>
  The scan (lines 317-323) over the sections from index 1 on; no section is added or
  removed while it runs, so the indices are those of the object as it was opened.
\<close>

fun scan_scns ::
  "GElf_Ehdr \<Rightarrow> nat list \<Rightarrow> Elf \<Rightarrow> probe_instance list \<Rightarrow> error + (Elf \<times> probe_instance list)" where
  "scan_scns eh [] e plist = Inr (e, plist)"
| "scan_scns eh (i # rest) e plist =
     (if sh_type (shdr (scns e ! i)) = SHT_REL \<or> sh_type (shdr (scns e ! i)) = SHT_RELA
      then
        (case process_reloc_scn e eh (shdr (scns e ! i)) i plist of
           Inl err \<Rightarrow> Inl err
         | Inr (e', plist') \<Rightarrow> scan_scns eh rest e' plist')
      else scan_scns eh rest e plist)"

text \<open>The emission (lines 336-340): the list is walked from its head.\<close>

fun record_all :: "Elf \<Rightarrow> nat \<Rightarrow> nat \<Rightarrow> probe_instance list \<Rightarrow> error + Elf" where
  "record_all e instscn instrelscn [] = Inr e"
| "record_all e instscn instrelscn (inst # rest) =
     (case record_instance e instscn instrelscn inst of
        Inl err \<Rightarrow> Inl err
      | Inr e' \<Rightarrow> record_all e' instscn instrelscn rest)"

text \<open>
  \<^verbatim>\<open>elf_update\<close> writes the object to the file. A section's data buffers are laid out one
  after the other, so the file, and the object a later \<^verbatim>\<open>elf_begin\<close> reads from it, has
  one buffer per section: the buffers of bytes and the buffers of a string table are
  joined.
\<close>

fun all_bytes :: "Elf_Data list \<Rightarrow> u8 list option" where
  "all_bytes [] = Some []"
| "all_bytes (DBytes b # ds) =
     (case all_bytes ds of None \<Rightarrow> None | Some r \<Rightarrow> Some (b @ r))"
| "all_bytes (_ # ds) = None"

definition flush_data :: "Elf_Data list \<Rightarrow> Elf_Data list" where
  "flush_data ds =
     (case ds of
        [] \<Rightarrow> []
      | _ # _ \<Rightarrow>
          (case all_bytes ds of
             Some bs \<Rightarrow> [DBytes bs]
           | None \<Rightarrow> (case strtab_chars ds of Some cs \<Rightarrow> [DStr cs] | None \<Rightarrow> ds)))"

definition elf_update :: "Elf \<Rightarrow> Elf" where
  "elf_update e = e\<lparr>scns := map (\<lambda>s. s\<lparr>sdata := flush_data (sdata s)\<rparr>) (scns e)\<rparr>"

text \<open>
  The files the program can open, by path, and what it writes to standard error without
  terminating: the paths \<^verbatim>\<open>warnx("invalid ELF type for '%s'")\<close> was called with. The
  informational \<^verbatim>\<open>LOG\<close> output of \<^verbatim>\<open>-v\<close> is not modelled.
\<close>

datatype obj_file = NotElf | ElfFile Elf

record world =
  files :: "(string \<times> obj_file) list"
  warnings :: "string list"

text \<open>
  A file that cannot be opened and a file that is no ELF object are fatal. An object that
  is not relocatable gets the warning and an early return. An object without probe
  instances returns before \<^verbatim>\<open>elf_update\<close>. Every fatal error leaves the function before
  \<^verbatim>\<open>elf_update\<close>, so the file is then as it was.
\<close>

definition process_obj :: "string \<Rightarrow> world \<Rightarrow> error + world" where
  "process_obj obj w =
     (case map_of (files w) obj of
        None \<Rightarrow> Inl (E_open obj)
      | Some NotElf \<Rightarrow> Inl E_getehdr
      | Some (ElfFile e) \<Rightarrow>
          if e_type (ehdr e) \<noteq> ET_REL then Inr (w\<lparr>warnings := warnings w @ [obj]\<rparr>)
          else
            (case scan_scns (ehdr e) [1..<length (scns e)] e [] of
               Inl err \<Rightarrow> Inl err
             | Inr (e1, plist) \<Rightarrow>
                 if plist = [] then Inr w
                 else
                   (case add_section e1 ''set_sdt_instance_set'' (ucast SHT_PROGBITS) SHF_ALLOC of
                      Inl err \<Rightarrow> Inl err
                    | Inr (e2, instscn) \<Rightarrow>
                   (case add_section e2 ''.relaset_sdt_instance_set'' (ucast SHT_RELA) 0 of
                      Inl err \<Rightarrow> Inl err
                    | Inr (e3, instrelscn) \<Rightarrow>
                   (case record_all e3 instscn instrelscn plist of
                      Inl err \<Rightarrow> Inl err
                    | Inr e4 \<Rightarrow>
                        Inr (w\<lparr>files := AList.update obj (ElfFile (elf_update e4)) (files w)\<rparr>))))))"

subsection \<open>\<^verbatim>\<open>main\<close> (lines 500-519)\<close>

text \<open>
  The loop over the object files (lines 515-516). A fatal error ends the process: the
  result is the error, if any, and the world as the process leaves it.
\<close>

fun process_objs :: "string list \<Rightarrow> world \<Rightarrow> error option \<times> world" where
  "process_objs [] w = (None, w)"
| "process_objs (obj # objs) w =
     (case process_obj obj w of
        Inl err \<Rightarrow> (Some err, w)
      | Inr w' \<Rightarrow> process_objs objs w')"

text \<open>
  \<open>argv\<close> is the whole argument vector, the program's name first. The result is the
  exit status and the world. A leading \<^verbatim>\<open>-v\<close> is dropped; no object file left is the
  usage error.
\<close>

definition main :: "string list \<Rightarrow> world \<Rightarrow> int \<times> world" where
  "main argv w =
     (let args = (if 1 < length argv \<and> argv ! 1 = ''-v'' then tl argv else argv)
      in if length args \<le> 1 then (1, w)
         else (case process_objs (tl args) w of
                 (None, w') \<Rightarrow> (0, w')
               | (Some err, w') \<Rightarrow> (1, w')))"

section \<open>Example objects\<close>

text \<open>
  A relocatable x86-64 object with the sections a compiler emits for a file that uses one
  probe: the text, its relocations, the probe linker set (one pointer), the symbol table
  (the null symbol, the stub \<^verbatim>\<open>__dtrace_probe_<suffix>\<close>, global and untyped, and the
  descriptor \<^verbatim>\<open>sdt_<suffix>\<close>), the two string tables, and the relocation section of the
  probe linker set, whose one entry references the descriptor. The suffix, the text and
  the text relocations are parameters.
\<close>

definition shstrtab_chars :: string where
  "shstrtab_chars =
     CHR 0x00 # ''.text'' @ CHR 0x00 # ''.rela.text'' @ CHR 0x00 # ''set_sdt_probes_set''
     @ CHR 0x00 # ''.symtab'' @ CHR 0x00 # ''.strtab'' @ CHR 0x00 # ''.shstrtab''
     @ CHR 0x00 # ''.relaset_sdt_probes_set'' @ [CHR 0x00]"

definition mk_shdr :: "u32 \<Rightarrow> u32 \<Rightarrow> u64 \<Rightarrow> u32 \<Rightarrow> u32 \<Rightarrow> u64 \<Rightarrow> GElf_Shdr" where
  "mk_shdr nm ty sz lnk nfo ent =
     \<lparr>sh_name = nm, sh_type = ty, sh_flags = 0, sh_size = sz, sh_link = lnk, sh_info = nfo,
      sh_addralign = 1, sh_entsize = ent\<rparr>"

definition symtab_scn :: "string \<Rightarrow> Elf_Scn" where
  "symtab_scn sfx =
     \<lparr>shdr = mk_shdr 37 2 72 5 0 24,
      sdata = [DSym [\<lparr>st_name = 0, st_info = 0\<rparr>,
                     \<lparr>st_name = 1, st_info = 0x10\<rparr>,
                     \<lparr>st_name = of_nat (17 + length sfx), st_info = 0x01\<rparr>]]\<rparr>"

definition strtab_scn :: "string \<Rightarrow> Elf_Scn" where
  "strtab_scn sfx =
     \<lparr>shdr = mk_shdr 45 SHT_STRTAB (of_nat (22 + 2 * length sfx)) 0 0 0,
      sdata = [DStr (CHR 0x00 # ''__dtrace_probe_'' @ sfx @ CHR 0x00 # ''sdt_'' @ sfx
                     @ [CHR 0x00])]\<rparr>"

definition mk_obj :: "string \<Rightarrow> u8 list \<Rightarrow> GElf_Rela list \<Rightarrow> Elf" where
  "mk_obj sfx text rels =
     \<lparr>ehdr = \<lparr>e_type = ET_REL, e_machine = EM_X86_64\<rparr>,
      shstrndx = 6,
      scns =
       [\<lparr>shdr = zero_shdr, sdata = []\<rparr>,
        \<lparr>shdr = mk_shdr 1 SHT_PROGBITS (of_nat (length text)) 0 0 0, sdata = [DBytes text]\<rparr>,
        \<lparr>shdr = mk_shdr 7 SHT_RELA (of_nat (24 * length rels)) 4 1 24, sdata = [DRela rels]\<rparr>,
        \<lparr>shdr = mk_shdr 18 SHT_PROGBITS 8 0 0 0, sdata = [DBytes (replicate 8 0)]\<rparr>,
        symtab_scn sfx,
        strtab_scn sfx,
        \<lparr>shdr = mk_shdr 53 SHT_STRTAB 87 0 0 0, sdata = [DStr shstrtab_chars]\<rparr>,
        \<lparr>shdr = mk_shdr 63 SHT_RELA 24 4 3 24,
         sdata = [DRela [\<lparr>r_offset = 0, r_info = 0x0000000200000001, r_addend = 0\<rparr>]]\<rparr>]\<rparr>"

text \<open>
  A relocation of the text against symbol 1, the probe stub, of type 4
  (\<^verbatim>\<open>R_X86_64_PLT32\<close>), as a compiler emits it for a call.
\<close>

definition stub_rela :: "u64 \<Rightarrow> GElf_Rela" where
  "stub_rela off = \<lparr>r_offset = off, r_info = 0x0000000100000004, r_addend = - 4\<rparr>"

text \<open>
  The spec's scenario of a single direct call: \<^verbatim>\<open>CALL __dtrace_probe_foo\<close> with its
  displacement at text offset \<open>0x10\<close>, and \<^verbatim>\<open>sdt_foo\<close> in the probe linker set.
\<close>

definition obj_foo :: Elf where
  "obj_foo = mk_obj ''foo'' (replicate 15 0xcc @ [0xe8, 0, 0, 0, 0]) [stub_rela 0x10]"

text \<open>
  An object with a call at offset 1 and a tail call (a jump) at offset 7 to the stub of a
  probe with a longer name.
\<close>

definition text_two :: "u8 list" where
  "text_two = [0xe8, 0, 0, 0, 0, 0xc3, 0xe9, 0, 0, 0, 0]"

definition obj_two :: Elf where
  "obj_two = mk_obj ''tcp_send_ok'' text_two [stub_rela 1, stub_rela 7]"

text \<open>The same object as an executable (\<^verbatim>\<open>ET_EXEC\<close>, 2).\<close>

definition obj_exec :: Elf where
  "obj_exec = obj_two\<lparr>ehdr := \<lparr>e_type = 2, e_machine = EM_X86_64\<rparr>\<rparr>"

definition world_of :: "string \<Rightarrow> Elf \<Rightarrow> world" where
  "world_of path e = \<lparr>files = [(path, ElfFile e)], warnings = []\<rparr>"

text \<open>
  What the program writes for \<open>obj_two\<close>: the patched text, the neutralized relocations,
  the two names appended to the section header string table, and the two new sections.
\<close>

definition obj_two_out :: Elf where
  "obj_two_out =
     \<lparr>ehdr = \<lparr>e_type = ET_REL, e_machine = EM_X86_64\<rparr>,
      shstrndx = 6,
      scns =
       [\<lparr>shdr = zero_shdr, sdata = []\<rparr>,
        \<lparr>shdr = mk_shdr 1 SHT_PROGBITS 11 0 0 0,
         sdata = [DBytes [0x90, 0x90, 0x90, 0x90, 0x90, 0xc3, 0xc3, 0x90, 0x90, 0x90, 0x90]]\<rparr>,
        \<lparr>shdr = mk_shdr 7 SHT_RELA 48 4 1 24,
         sdata = [DRela [\<lparr>r_offset = 1, r_info = 0x0000000100000000, r_addend = - 4\<rparr>,
                         \<lparr>r_offset = 7, r_info = 0x0000000100000000, r_addend = - 4\<rparr>]]\<rparr>,
        \<lparr>shdr = mk_shdr 18 SHT_PROGBITS 8 0 0 0, sdata = [DBytes (replicate 8 0)]\<rparr>,
        symtab_scn ''tcp_send_ok'',
        strtab_scn ''tcp_send_ok'',
        \<lparr>shdr = mk_shdr 53 SHT_STRTAB 134 0 0 0,
         sdata = [DStr (shstrtab_chars @ ''set_sdt_instance_set'' @ CHR 0x00
                        # ''.relaset_sdt_instance_set'' @ [CHR 0x00])]\<rparr>,
        \<lparr>shdr = mk_shdr 63 SHT_RELA 24 4 3 24,
         sdata = [DRela [\<lparr>r_offset = 0, r_info = 0x0000000200000001, r_addend = 0\<rparr>]]\<rparr>,
        \<lparr>shdr = \<lparr>sh_name = 87, sh_type = SHT_PROGBITS, sh_flags = SHF_ALLOC, sh_size = 32,
                  sh_link = 0, sh_info = 0, sh_addralign = 8, sh_entsize = 0\<rparr>,
         sdata = [DBytes ([0, 0, 0, 0, 0, 0, 0, 0, 7, 0, 0, 0, 0, 0, 0, 0]
                          @ [0, 0, 0, 0, 0, 0, 0, 0, 1, 0, 0, 0, 0, 0, 0, 0])]\<rparr>,
        \<lparr>shdr = \<lparr>sh_name = 108, sh_type = SHT_RELA, sh_flags = 0, sh_size = 0,
                  sh_link = 0, sh_info = 0, sh_addralign = 8, sh_entsize = 0\<rparr>,
         sdata = []\<rparr>]\<rparr>"

section \<open>The spec's notions, for the statements\<close>

text \<open>
  The probe-stub relocations of an object in the order the spec gives for their
  processing: sections in file order, and within a section ascending entry index. A
  probe-stub relocation is an entry of a relocation section whose target section is named
  \<^verbatim>\<open>.text\<close> and whose symbol's name begins with the probe prefix. An entry is seen here
  as its offset and its symbol index.
\<close>

definition sym_is_stub :: "Elf \<Rightarrow> GElf_Shdr \<Rightarrow> Elf_Scn \<Rightarrow> u64 \<Rightarrow> bool" where
  "sym_is_stub e symshdr symscn sidx =
     (case symlookup symscn (ucast sidx) of
        Inl err \<Rightarrow> False
      | Inr sm \<Rightarrow>
          (case elf_strptr e (unat (sh_link symshdr)) (ucast (st_name sm)) of
             None \<Rightarrow> False
           | Some nm \<Rightarrow> take prefixlen nm = probe_prefix))"

definition reloc_entries :: "Elf_Data \<Rightarrow> (u64 \<times> u64) list" where
  "reloc_entries d =
     (case d of
        DRel rs \<Rightarrow> map (\<lambda>r. (r_offset r, GELF_R_SYM (r_info r))) rs
      | DRela rs \<Rightarrow> map (\<lambda>r. (r_offset r, GELF_R_SYM (r_info r))) rs
      | _ \<Rightarrow> [])"

definition text_reloc_scn :: "Elf \<Rightarrow> Elf_Scn \<Rightarrow> bool" where
  "text_reloc_scn e s =
     ((sh_type (shdr s) = SHT_REL \<or> sh_type (shdr s) = SHT_RELA) \<and>
      (case elf_getscn e (unat (sh_info (shdr s))) of
         None \<Rightarrow> False
       | Some t \<Rightarrow> get_scn_name e t = Some ''.text''))"

definition scn_stub_offsets :: "Elf \<Rightarrow> Elf_Scn \<Rightarrow> u64 list" where
  "scn_stub_offsets e s =
     (if text_reloc_scn e s then
        (case elf_getscn e (unat (sh_link (shdr s))) of
           None \<Rightarrow> []
         | Some symscn \<Rightarrow>
             (case sdata s of
                [] \<Rightarrow> []
              | d # _ \<Rightarrow>
                  map fst (filter (\<lambda>en. sym_is_stub e (shdr symscn) symscn (snd en))
                    (take (unat (sh_size (shdr s) div sh_entsize (shdr s))) (reloc_entries d)))))
      else [])"

definition stub_offsets :: "Elf \<Rightarrow> u64 list" where
  "stub_offsets e = concat (map (\<lambda>i. scn_stub_offsets e (scns e ! i)) [1..<length (scns e)])"

text \<open>
  The contents of the section of a given name (found as the source's
  \<^verbatim>\<open>section_by_name\<close> finds it), the number of 16-byte instance records in
  \<^verbatim>\<open>set_sdt_instance_set\<close>, and the number of relocation entries in
  \<^verbatim>\<open>.relaset_sdt_instance_set\<close>.
\<close>

definition scn_data_named :: "Elf \<Rightarrow> string \<Rightarrow> Elf_Data list" where
  "scn_data_named e name =
     (case section_by_name e name of Inr (Some i) \<Rightarrow> sdata (scns e ! i) | _ \<Rightarrow> [])"

definition count_records :: "Elf \<Rightarrow> nat" where
  "count_records e =
     (case all_bytes (scn_data_named e ''set_sdt_instance_set'') of
        Some bs \<Rightarrow> length bs div 16
      | None \<Rightarrow> 0)"

definition count_relocations :: "Elf \<Rightarrow> nat" where
  "count_relocations e =
     length (concat (map reloc_entries (scn_data_named e ''.relaset_sdt_instance_set'')))"

subsection \<open>A relation for the proofs\<close>

text \<open>
  Two objects are alike when they differ at most in the contents of byte buffers and in
  the type fields of relocation entries: what the scan changes. Headers, symbols and
  strings are the same.
\<close>

fun data_sim :: "Elf_Data \<Rightarrow> Elf_Data \<Rightarrow> bool" where
  "data_sim (DBytes a) (DBytes b) = True"
| "data_sim (DRel a) (DRel b) = (reloc_entries (DRel a) = reloc_entries (DRel b))"
| "data_sim (DRela a) (DRela b) = (reloc_entries (DRela a) = reloc_entries (DRela b))"
| "data_sim x y = (x = y)"

definition scn_sim :: "Elf_Scn \<Rightarrow> Elf_Scn \<Rightarrow> bool" where
  "scn_sim s s' = (shdr s = shdr s' \<and> list_all2 data_sim (sdata s) (sdata s'))"

definition elf_sim :: "Elf \<Rightarrow> Elf \<Rightarrow> bool" where
  "elf_sim e e' =
     (ehdr e = ehdr e' \<and> shstrndx e = shstrndx e' \<and> list_all2 scn_sim (scns e) (scns e'))"

section \<open>Properties of the rewriter\<close>

lemma mask32: "(0xffffffff :: u64) = mask 32"
  by (simp add: mask_eq_exp_minus_1)

lemma info_type_cleared:
  "GELF_R_TYPE ((info AND NOT (GELF_R_TYPE info)) OR R_X86_64_NONE) = R_X86_64_NONE"
  unfolding GELF_R_TYPE_def R_X86_64_NONE_def mask32
  by (rule bit_eqI) (auto simp add: bit_simps)

lemma info_sym_kept:
  "GELF_R_SYM ((info AND NOT (GELF_R_TYPE info)) OR R_X86_64_NONE) = GELF_R_SYM info"
  unfolding GELF_R_TYPE_def GELF_R_SYM_def R_X86_64_NONE_def mask32
  by (rule bit_eqI) (auto simp add: bit_simps dest: bit_imp_le_length)

text \<open>The two ways \<^verbatim>\<open>process_rel\<close> returns: untouched with 1, or rewritten with 0.\<close>

lemma process_rel_cases:
  assumes "process_rel e eh symshdr symtab target off info plist = Inr (ret, target', info', plist')"
  obtains
    (skipped) "ret = 1" "target' = target" "info' = info" "plist' = plist"
  | (rewritten) sm nm where "ret = 0"
      "symlookup symtab (ucast (GELF_R_SYM info)) = Inr sm"
      "elf_strptr e (unat (sh_link symshdr)) (ucast (st_name sm)) = Some nm"
      "take prefixlen nm = probe_prefix"
      "GELF_ST_TYPE (st_info sm) = STT_NOTYPE"
      "GELF_ST_BIND (st_info sm) = STB_GLOBAL"
      "e_machine eh = EM_X86_64"
      "patch_amd64 target off nm = Inr target'"
      "info' = (info AND NOT (GELF_R_TYPE info)) OR R_X86_64_NONE"
      "plist' = \<lparr>symname = nm, offset = off\<rparr> # plist"
  using assms
  by (auto simp add: process_rel_def split: sum.splits option.splits if_splits)

lemma replicate5: "replicate 5 x = x # replicate 4 x"
  by (simp add: numeral_eq_Suc)

lemma patch_amd64_result:
  assumes "patch_amd64 target off nm = Inr target'"
  shows "unat (off - 1) + 5 \<le> length target \<and>
         (target ! unat (off - 1) = AMD64_CALL \<or> target ! unat (off - 1) = AMD64_JMP32) \<and>
         target' = take (unat (off - 1)) target
                   @ (if target ! unat (off - 1) = AMD64_JMP32 then AMD64_RETQ else AMD64_NOP)
                     # replicate 4 AMD64_NOP
                   @ drop (unat (off - 1) + 5) target"
proof -
  let ?s = "unat (off - 1)"
  from assms obtain opc where opc: "rd target (off - 1) = Inr opc"
    by (auto simp add: patch_amd64_def split: sum.splits)
  then have inb: "?s < length target" and opc_eq: "opc = target ! ?s"
    by (auto simp add: rd_def split: if_splits)
  from assms opc have kind: "opc = AMD64_CALL \<or> opc = AMD64_JMP32"
    by (auto simp add: patch_amd64_def split: sum.splits if_splits)
  from assms opc obtain t1 where ms: "memset target ?s AMD64_NOP 5 = Inr t1"
    and res: "target' = (if opc = AMD64_JMP32 then t1[?s := AMD64_RETQ] else t1)"
    by (auto simp add: patch_amd64_def split: sum.splits if_splits)
  from ms have bound: "?s + 5 \<le> length target"
    and t1: "t1 = take ?s target @ AMD64_NOP # replicate 4 AMD64_NOP @ drop (?s + 5) target"
    by (auto simp add: memset_def replicate5 split: if_splits)
  have upd: "t1[?s := AMD64_RETQ] =
      take ?s target @ AMD64_RETQ # replicate 4 AMD64_NOP @ drop (?s + 5) target"
    using inb by (simp add: t1 list_update_append min_def)
  show ?thesis using bound kind res t1 upd opc_eq by auto
qed

text \<open>
  C5. For every relocation the rewriter rewrites (it returns 0), whatever the type in the
  info word was, the type field of the info word it leaves is \<^verbatim>\<open>R_X86_64_NONE\<close>.
\<close>

theorem process_rel_type_none:
  assumes "process_rel e eh symshdr symtab target off info plist = Inr (0, target', info', plist')"
  shows "GELF_R_TYPE info' = R_X86_64_NONE"
  using assms by (cases rule: process_rel_cases) (simp_all add: info_type_cleared)

theorem process_rel_type_none_witness:
  "process_rel obj_two (ehdr obj_two) (shdr (symtab_scn ''tcp_send_ok'')) (symtab_scn ''tcp_send_ok'')
       text_two 1 0x0000000100000004 [] =
     Inr (0, [0x90, 0x90, 0x90, 0x90, 0x90, 0xc3, 0xe9, 0, 0, 0, 0], 0x0000000100000000,
          [\<lparr>symname = ''__dtrace_probe_tcp_send_ok'', offset = 1\<rparr>])
   \<and> GELF_R_TYPE 0x0000000100000000 = R_X86_64_NONE"
proof -
  have run: "process_rel obj_two (ehdr obj_two) (shdr (symtab_scn ''tcp_send_ok''))
       (symtab_scn ''tcp_send_ok'') text_two 1 0x0000000100000004 [] =
     Inr (0, [0x90, 0x90, 0x90, 0x90, 0x90, 0xc3, 0xe9, 0, 0, 0, 0], 0x0000000100000000,
          [\<lparr>symname = ''__dtrace_probe_tcp_send_ok'', offset = 1\<rparr>])"
    by code_simp
  from process_rel_type_none [OF run] run show ?thesis by simp
qed

text \<open>
  C6. For every call site the rewriter rewrites at relocation offset \<open>O\<close>, the five text
  bytes from index \<open>O - 1\<close> on (the index the source computes, in 64-bit arithmetic) lie
  inside the buffer and are \<open>90 90 90 90 90\<close> when the byte at \<open>O - 1\<close> was \<open>E8\<close>, and
  \<open>C3 90 90 90 90\<close> when it was \<open>E9\<close>; it was one of the two. For a buffer that fits the
  address space \<open>O\<close> is at least 1, and the index is the number \<open>O - 1\<close>.
\<close>

theorem process_rel_nops:
  assumes "process_rel e eh symshdr symtab target off info plist = Inr (0, target', info', plist')"
  shows "unat (off - 1) + 5 \<le> length target' \<and>
         (target ! unat (off - 1) = AMD64_CALL \<or> target ! unat (off - 1) = AMD64_JMP32) \<and>
         (target ! unat (off - 1) = AMD64_CALL \<longrightarrow>
            take 5 (drop (unat (off - 1)) target') = [0x90, 0x90, 0x90, 0x90, 0x90]) \<and>
         (target ! unat (off - 1) = AMD64_JMP32 \<longrightarrow>
            take 5 (drop (unat (off - 1)) target') = [0xc3, 0x90, 0x90, 0x90, 0x90]) \<and>
         (length target < 2 ^ 64 \<longrightarrow> 1 \<le> unat off \<and> unat (off - 1) = unat off - 1)"
  using assms
proof (cases rule: process_rel_cases)
  case skipped
  then show ?thesis by simp
next
  case (rewritten sm nm)
  note res = patch_amd64_result [OF rewritten(8)]
  have bytes: "unat (off - 1) + 5 \<le> length target' \<and>
         (target ! unat (off - 1) = AMD64_CALL \<or> target ! unat (off - 1) = AMD64_JMP32) \<and>
         (target ! unat (off - 1) = AMD64_CALL \<longrightarrow>
            take 5 (drop (unat (off - 1)) target') = [0x90, 0x90, 0x90, 0x90, 0x90]) \<and>
         (target ! unat (off - 1) = AMD64_JMP32 \<longrightarrow>
            take 5 (drop (unat (off - 1)) target') = [0xc3, 0x90, 0x90, 0x90, 0x90])"
    using res
    by (auto simp add: AMD64_NOP_def AMD64_RETQ_def AMD64_CALL_def AMD64_JMP32_def
        numeral_eq_Suc)
  have pos: "1 \<le> unat off \<and> unat (off - 1) = unat off - 1" if "length target < 2 ^ 64"
  proof -
    have "off \<noteq> 0"
    proof
      assume "off = 0"
      then have "unat (off - 1) = 2 ^ 64 - 1"
        by (simp add: unsigned_minus_1_eq_mask mask_eq_exp_minus_1)
      with res that show False by simp
    qed
    then show ?thesis
      by (simp add: unat_minus_one Suc_le_eq unat_gt_0)
  qed
  from bytes pos show ?thesis by blast
qed

theorem process_rel_nops_witness:
  "process_rel obj_two (ehdr obj_two) (shdr (symtab_scn ''tcp_send_ok'')) (symtab_scn ''tcp_send_ok'')
       text_two 7 0x0000000100000004 [] =
     Inr (0, [0xe8, 0, 0, 0, 0, 0xc3, 0xc3, 0x90, 0x90, 0x90, 0x90], 0x0000000100000000,
          [\<lparr>symname = ''__dtrace_probe_tcp_send_ok'', offset = 7\<rparr>])
   \<and> text_two ! unat ((7 :: u64) - 1) = AMD64_JMP32
   \<and> take 5 (drop (unat ((7 :: u64) - 1)) [0xe8, 0, 0, 0, 0, 0xc3, 0xc3, 0x90, 0x90, 0x90, 0x90 :: u8])
       = [0xc3, 0x90, 0x90, 0x90, 0x90]"
proof -
  have run: "process_rel obj_two (ehdr obj_two) (shdr (symtab_scn ''tcp_send_ok''))
       (symtab_scn ''tcp_send_ok'') text_two 7 0x0000000100000004 [] =
     Inr (0, [0xe8, 0, 0, 0, 0, 0xc3, 0xc3, 0x90, 0x90, 0x90, 0x90], 0x0000000100000000,
          [\<lparr>symname = ''__dtrace_probe_tcp_send_ok'', offset = 7\<rparr>])"
    by code_simp
  have jmp: "text_two ! unat ((7 :: u64) - 1) = AMD64_JMP32"
    by (simp add: text_two_def AMD64_JMP32_def)
  from process_rel_nops [OF run] jmp run show ?thesis by simp
qed

lemma process_rel_sym_kept:
  assumes "process_rel e eh symshdr symtab target off info plist = Inr (ret, target', info', plist')"
  shows "GELF_R_SYM info' = GELF_R_SYM info"
  using assms by (cases rule: process_rel_cases) (simp_all add: info_sym_kept)

lemma rel_loop_frame:
  "rel_loop e eh symshdr symscn n i rels target plist = Inr (rels', target', plist') \<Longrightarrow>
   map r_offset rels' = map r_offset rels \<and>
   map (\<lambda>r. GELF_R_SYM (r_info r)) rels' = map (\<lambda>r. GELF_R_SYM (r_info r)) rels \<and>
   map GElf_Rel.more rels' = map GElf_Rel.more rels"
proof (induction e eh symshdr symscn n i rels target plist rule: rel_loop.induct)
  case (1 e eh symshdr symscn n i rels target plist)
  show ?case
  proof (cases "i < n \<and> gelf_ndx_ok i (length rels)")
    case False
    with "1.prems" show ?thesis
      by (auto simp add: rel_loop.simps [of _ _ _ _ n i] split: if_splits)
  next
    case True
    then have inb: "i < length rels"
      by (simp add: gelf_ndx_ok_def)
    from True "1.prems" obtain ret t1 i1 p1 where
      step: "process_rel e eh symshdr symscn target (r_offset (rels ! i)) (r_info (rels ! i)) plist
               = Inr (ret, t1, i1, p1)"
      and rest: "rel_loop e eh symshdr symscn n (Suc i)
               (if ret = 0 then rels[i := (rels ! i)\<lparr>r_info := i1\<rparr>] else rels) t1 p1
               = Inr (rels', target', plist')"
      by (auto simp add: rel_loop.simps [of _ _ _ _ n i] split: sum.splits)
    from "1.IH" [OF _ _ step refl refl refl rest] True
    have ih: "map r_offset rels' =
                map r_offset (if ret = 0 then rels[i := (rels ! i)\<lparr>r_info := i1\<rparr>] else rels)"
             "map (\<lambda>r. GELF_R_SYM (r_info r)) rels' =
                map (\<lambda>r. GELF_R_SYM (r_info r))
                  (if ret = 0 then rels[i := (rels ! i)\<lparr>r_info := i1\<rparr>] else rels)"
             "map GElf_Rel.more rels' =
                map GElf_Rel.more (if ret = 0 then rels[i := (rels ! i)\<lparr>r_info := i1\<rparr>] else rels)"
      by simp_all
    have sym: "GELF_R_SYM i1 = GELF_R_SYM (r_info (rels ! i))"
      by (rule process_rel_sym_kept [OF step])
    show ?thesis
      using ih sym inb by (simp add: map_update list_update_same_conv)
  qed
qed


text \<open>
  C9. The scanner's loop over the relocation entries (which calls the rewriter and writes
  the entry back when it reports a rewrite) leaves every entry's offset and every bit of
  its info word above the type field as they were: the symbol index is the same, so the
  symbol the entry references is the same, and so is everything else in the entry (the
  addend of an explicit-addend entry).
\<close>

theorem rewrite_keeps_symbol_and_offset:
  assumes "rel_loop e eh symshdr symscn n i rels target plist = Inr (rels', target', plist')"
    and "j < length rels"
  shows "length rels' = length rels \<and>
         r_offset (rels' ! j) = r_offset (rels ! j) \<and>
         GELF_R_SYM (r_info (rels' ! j)) = GELF_R_SYM (r_info (rels ! j)) \<and>
         symlookup symscn (ucast (GELF_R_SYM (r_info (rels' ! j)))) =
           symlookup symscn (ucast (GELF_R_SYM (r_info (rels ! j)))) \<and>
         GElf_Rel.more (rels' ! j) = GElf_Rel.more (rels ! j)"
proof -
  from rel_loop_frame [OF assms(1)]
  have m: "map r_offset rels' = map r_offset rels"
    "map (\<lambda>r. GELF_R_SYM (r_info r)) rels' = map (\<lambda>r. GELF_R_SYM (r_info r)) rels"
    "map GElf_Rel.more rels' = map GElf_Rel.more rels"
    by simp_all
  from m(1) have len: "length rels' = length rels"
    by (rule map_eq_imp_length_eq)
  have "map r_offset rels' ! j = map r_offset rels ! j"
    "map (\<lambda>r. GELF_R_SYM (r_info r)) rels' ! j = map (\<lambda>r. GELF_R_SYM (r_info r)) rels ! j"
    "map GElf_Rel.more rels' ! j = map GElf_Rel.more rels ! j"
    using m by simp_all
  with len assms(2) show ?thesis by simp
qed

theorem rewrite_keeps_symbol_and_offset_witness:
  "rel_loop obj_two (ehdr obj_two) (shdr (symtab_scn ''tcp_send_ok'')) (symtab_scn ''tcp_send_ok'')
       2 0 [stub_rela 1, stub_rela 7] text_two [] =
     Inr ([\<lparr>r_offset = 1, r_info = 0x0000000100000000, r_addend = - 4\<rparr>,
           \<lparr>r_offset = 7, r_info = 0x0000000100000000, r_addend = - 4\<rparr>],
          [0x90, 0x90, 0x90, 0x90, 0x90, 0xc3, 0xc3, 0x90, 0x90, 0x90, 0x90],
          [\<lparr>symname = ''__dtrace_probe_tcp_send_ok'', offset = 7\<rparr>,
           \<lparr>symname = ''__dtrace_probe_tcp_send_ok'', offset = 1\<rparr>])
   \<and> GELF_R_SYM (0x0000000100000000 :: u64) = GELF_R_SYM (r_info (stub_rela 7))
   \<and> r_offset (stub_rela 7) = 7"
proof -
  have run: "rel_loop obj_two (ehdr obj_two) (shdr (symtab_scn ''tcp_send_ok''))
       (symtab_scn ''tcp_send_ok'') 2 0 [stub_rela 1, stub_rela 7] text_two [] =
     Inr ([\<lparr>r_offset = 1, r_info = 0x0000000100000000, r_addend = - 4\<rparr>,
           \<lparr>r_offset = 7, r_info = 0x0000000100000000, r_addend = - 4\<rparr>],
          [0x90, 0x90, 0x90, 0x90, 0x90, 0xc3, 0xc3, 0x90, 0x90, 0x90, 0x90],
          [\<lparr>symname = ''__dtrace_probe_tcp_send_ok'', offset = 7\<rparr>,
           \<lparr>symname = ''__dtrace_probe_tcp_send_ok'', offset = 1\<rparr>])"
    by code_simp
  have j: "(1::nat) < length [stub_rela 1, stub_rela 7]" by simp
  from rewrite_keeps_symbol_and_offset [OF run j] run show ?thesis by simp
qed

lemma patch_amd64_oob:
  assumes "length target \<le> unat (off - 1)"
  shows "patch_amd64 target off nm = Inl Fault_oob"
  using assms by (simp add: patch_amd64_def rd_def)

text \<open>
  C10. For a relocation the filter and the sanity checks accept (a global, untyped symbol
  with the probe prefix, in an x86-64 object) the rewriter reads \<^verbatim>\<open>target[offset - 1]\<close>
  with no check of the offset: whenever that index is outside the text buffer the run
  is an out-of-bounds read, and at offset 0 it is outside every buffer (the index is
  \<open>2^64 - 1\<close>). The index is inside the buffer only when the offset is at least 1.
\<close>

theorem process_rel_opcode_read_unguarded:
  assumes "symlookup symtab (ucast (GELF_R_SYM info)) = Inr sm"
    and "elf_strptr e (unat (sh_link symshdr)) (ucast (st_name sm)) = Some nm"
    and "take prefixlen nm = probe_prefix"
    and "GELF_ST_TYPE (st_info sm) = STT_NOTYPE"
    and "GELF_ST_BIND (st_info sm) = STB_GLOBAL"
    and "e_machine eh = EM_X86_64"
    and "length target < 2 ^ 64"
  shows "process_rel e eh symshdr symtab target 0 info plist = Inl Fault_oob \<and>
         (\<forall>off. length target \<le> unat (off - 1) \<longrightarrow>
            process_rel e eh symshdr symtab target off info plist = Inl Fault_oob) \<and>
         (\<forall>off :: u64. unat (off - 1) < length target \<longrightarrow> 1 \<le> unat off)"
proof -
  have oob: "process_rel e eh symshdr symtab target off info plist = Inl Fault_oob"
    if "length target \<le> unat (off - 1)" for off
    using assms(1-6) patch_amd64_oob [OF that] by (simp add: process_rel_def)
  have m1: "unat ((0 :: u64) - 1) = 2 ^ 64 - 1"
    by (simp add: unsigned_minus_1_eq_mask mask_eq_exp_minus_1)
  have zero: "length target \<le> unat ((0 :: u64) - 1)"
    using assms(7) unfolding m1 by simp
  have pos: "1 \<le> unat off" if "unat (off - 1) < length target" for off :: u64
  proof (rule ccontr)
    assume "\<not> 1 \<le> unat off"
    then have "off = 0" by (simp add: unat_eq_0 not_le)
    with that zero show False by simp
  qed
  show ?thesis
  proof (intro conjI allI impI)
    show "process_rel e eh symshdr symtab target 0 info plist = Inl Fault_oob"
      by (rule oob [OF zero])
  next
    fix off :: u64
    assume "length target \<le> unat (off - 1)"
    then show "process_rel e eh symshdr symtab target off info plist = Inl Fault_oob"
      by (rule oob)
  next
    fix off :: u64
    assume "unat (off - 1) < length target"
    then show "1 \<le> unat off"
      by (rule pos)
  qed
qed

theorem process_rel_opcode_read_unguarded_witness:
  "process_rel obj_two (ehdr obj_two) (shdr (symtab_scn ''tcp_send_ok'')) (symtab_scn ''tcp_send_ok'')
      text_two 0 0x0000000100000004 [] = Inl Fault_oob"
proof -
  have 1: "symlookup (symtab_scn ''tcp_send_ok'') (ucast (GELF_R_SYM 0x0000000100000004))
             = Inr \<lparr>st_name = 1, st_info = 0x10\<rparr>"
    by code_simp
  have 2: "elf_strptr obj_two (unat (sh_link (shdr (symtab_scn ''tcp_send_ok''))))
             (ucast (st_name \<lparr>st_name = 1, st_info = 0x10\<rparr>)) = Some ''__dtrace_probe_tcp_send_ok''"
    by code_simp
  have 3: "take prefixlen ''__dtrace_probe_tcp_send_ok'' = probe_prefix"
    by code_simp
  have 4: "GELF_ST_TYPE (st_info \<lparr>st_name = 1, st_info = 0x10\<rparr>) = STT_NOTYPE"
    by code_simp
  have 5: "GELF_ST_BIND (st_info \<lparr>st_name = 1, st_info = 0x10\<rparr>) = STB_GLOBAL"
    by code_simp
  have 6: "e_machine (ehdr obj_two) = EM_X86_64"
    by code_simp
  have 7: "length text_two < 2 ^ 64"
    by (simp add: text_two_def)
  from process_rel_opcode_read_unguarded [OF 1 2 3 4 5 6 7] show ?thesis by blast
qed

text \<open>
  C2 (as amended). The filter looks only at the name of the symbol the relocation
  references, and the rewrite leaves the symbol index as it was. So the rewriter, applied
  again to a relocation it has rewritten (with the info word it left, and any text whose
  byte at \<open>O - 1\<close> is the one it left), does not skip the relocation: it selects it
  again and fails on the opcode check, because that byte is now \<open>0x90\<close> or \<open>0xC3\<close>.
\<close>

theorem process_rel_again_fails:
  assumes "process_rel e eh symshdr symtab target off info plist = Inr (0, target', info', plist')"
    and "length text2 = length target'"
    and "text2 ! unat (off - 1) = target' ! unat (off - 1)"
  shows "\<exists>opc nm. process_rel e eh symshdr symtab text2 off info' plist2 = Inl (E_opcode opc nm off)
           \<and> (opc = AMD64_NOP \<or> opc = AMD64_RETQ)"
  using assms(1)
proof (cases rule: process_rel_cases)
  case skipped
  then show ?thesis by simp
next
  case (rewritten sm nm)
  let ?s = "unat (off - 1)"
  from patch_amd64_result [OF rewritten(8)]
  have bound: "?s + 5 \<le> length target"
    and t': "target' = take ?s target
                   @ (if target ! ?s = AMD64_JMP32 then AMD64_RETQ else AMD64_NOP)
                     # replicate 4 AMD64_NOP @ drop (?s + 5) target"
    by simp_all
  from bound have len: "length target' = length target"
    by (simp add: t' min_def)
  have byte: "target' ! ?s = (if target ! ?s = AMD64_JMP32 then AMD64_RETQ else AMD64_NOP)"
    using bound by (simp add: t' nth_append min_def)
  let ?opc = "text2 ! ?s"
  have opc: "?opc = AMD64_NOP \<or> ?opc = AMD64_RETQ"
    using byte assms(3) by simp
  then have not_call: "?opc \<noteq> AMD64_CALL" "?opc \<noteq> AMD64_JMP32"
    by (auto simp add: AMD64_NOP_def AMD64_RETQ_def AMD64_CALL_def AMD64_JMP32_def)
  have rd: "rd text2 (off - 1) = Inr ?opc"
    using bound len assms(2) by (simp add: rd_def)
  have patch: "patch_amd64 text2 off nm = Inl (E_opcode ?opc nm off)"
    using rd not_call by (simp add: patch_amd64_def)
  have sym: "GELF_R_SYM info' = GELF_R_SYM info"
    using rewritten(9) by (simp add: info_sym_kept)
  have "process_rel e eh symshdr symtab text2 off info' plist2 = Inl (E_opcode ?opc nm off)"
    using rewritten(2-7) patch sym by (simp add: process_rel_def)
  with opc show ?thesis by blast
qed


theorem process_rel_again_fails_witness:
  "process_rel obj_two (ehdr obj_two) (shdr (symtab_scn ''tcp_send_ok'')) (symtab_scn ''tcp_send_ok'')
       text_two 1 0x0000000100000004 [] =
     Inr (0, [0x90, 0x90, 0x90, 0x90, 0x90, 0xc3, 0xe9, 0, 0, 0, 0], 0x0000000100000000,
          [\<lparr>symname = ''__dtrace_probe_tcp_send_ok'', offset = 1\<rparr>])
   \<and> (\<exists>opc nm.
        process_rel obj_two (ehdr obj_two) (shdr (symtab_scn ''tcp_send_ok''))
          (symtab_scn ''tcp_send_ok'')
          [0x90, 0x90, 0x90, 0x90, 0x90, 0xc3, 0xc3, 0x90, 0x90, 0x90, 0x90] 1 0x0000000100000000 []
        = Inl (E_opcode opc nm 1) \<and> (opc = AMD64_NOP \<or> opc = AMD64_RETQ))"
proof -
  have run: "process_rel obj_two (ehdr obj_two) (shdr (symtab_scn ''tcp_send_ok''))
       (symtab_scn ''tcp_send_ok'') text_two 1 0x0000000100000004 [] =
     Inr (0, [0x90, 0x90, 0x90, 0x90, 0x90, 0xc3, 0xe9, 0, 0, 0, 0], 0x0000000100000000,
          [\<lparr>symname = ''__dtrace_probe_tcp_send_ok'', offset = 1\<rparr>])"
    by code_simp
  have len: "length [0x90, 0x90, 0x90, 0x90, 0x90, 0xc3, 0xc3, 0x90, 0x90, 0x90, 0x90 :: u8]
      = length [0x90, 0x90, 0x90, 0x90, 0x90, 0xc3, 0xe9, 0, 0, 0, 0 :: u8]"
    by simp
  have byte: "[0x90, 0x90, 0x90, 0x90, 0x90, 0xc3, 0xc3, 0x90, 0x90, 0x90, 0x90 :: u8] ! unat ((1 :: u64) - 1)
      = [0x90, 0x90, 0x90, 0x90, 0x90, 0xc3, 0xe9, 0, 0, 0, 0 :: u8] ! unat ((1 :: u64) - 1)"
    by simp
  from process_rel_again_fails [OF run len byte, of "[]"] run show ?thesis by simp
qed

section \<open>Properties of \<^verbatim>\<open>add_section\<close>\<close>

lemma add_section_result:
  assumes "add_section e name type flags = Inr (e', ndx)"
  shows "shstrndx e < length (scns e) \<and> ndx = length (scns e) \<and>
         e' = e\<lparr>scns := (scns e)[shstrndx e :=
                   \<lparr>shdr = (shdr (scns e ! shstrndx e))
                      \<lparr>sh_size := sh_size (shdr (scns e ! shstrndx e)) + of_nat (length name + 1)\<rparr>,
                    sdata = sdata (scns e ! shstrndx e) @ [DStr (name @ [CHR 0x00])]\<rparr>]
                 @ [\<lparr>shdr = zero_shdr
                      \<lparr>sh_name := ucast (sh_size (shdr (scns e ! shstrndx e))),
                       sh_type := ucast type, sh_flags := flags, sh_addralign := 8\<rparr>,
                     sdata = []\<rparr>]\<rparr>"
  using assms
  by (auto simp add: add_section_def elf_getscn_def Let_def split: option.splits if_splits)

text \<open>
  C7. When \<^verbatim>\<open>add_section\<close> returns, the new section is the last of the table, and the name
  field of its header holds the size the section header string table's header had before
  the call: the name field is 32 bits wide and holds the low 32 bits of that 64-bit size,
  which is the size itself for every string table below 4 GiB. The size field of the
  string table's header has grown by the length of the name plus one (for the NUL), in
  the 64-bit arithmetic of the field, and the name with its NUL is the new last buffer of
  the string table.
\<close>

theorem add_section_name_is_prior_size:
  assumes "add_section e name type flags = Inr (e', ndx)"
  shows "ndx = length (scns e) \<and> length (scns e') = Suc (length (scns e)) \<and>
         sh_name (shdr (scns e' ! ndx)) = ucast (sh_size (shdr (scns e ! shstrndx e))) \<and>
         (unat (sh_size (shdr (scns e ! shstrndx e))) < 2 ^ 32 \<longrightarrow>
            unat (sh_name (shdr (scns e' ! ndx))) = unat (sh_size (shdr (scns e ! shstrndx e)))) \<and>
         sh_size (shdr (scns e' ! shstrndx e)) =
           sh_size (shdr (scns e ! shstrndx e)) + of_nat (length name + 1) \<and>
         (unat (sh_size (shdr (scns e ! shstrndx e))) + (length name + 1) < 2 ^ 64 \<longrightarrow>
            unat (sh_size (shdr (scns e' ! shstrndx e))) =
              unat (sh_size (shdr (scns e ! shstrndx e))) + (length name + 1)) \<and>
         sdata (scns e' ! shstrndx e) = sdata (scns e ! shstrndx e) @ [DStr (name @ [CHR 0x00])]"
proof -
  let ?old = "sh_size (shdr (scns e ! shstrndx e))"
  from add_section_result [OF assms]
  have lt: "shstrndx e < length (scns e)" and ndx: "ndx = length (scns e)"
    and e': "e' = e\<lparr>scns := (scns e)[shstrndx e :=
                   \<lparr>shdr = (shdr (scns e ! shstrndx e))\<lparr>sh_size := ?old + of_nat (length name + 1)\<rparr>,
                    sdata = sdata (scns e ! shstrndx e) @ [DStr (name @ [CHR 0x00])]\<rparr>]
                 @ [\<lparr>shdr = zero_shdr
                      \<lparr>sh_name := ucast ?old,
                       sh_type := ucast type, sh_flags := flags, sh_addralign := 8\<rparr>,
                     sdata = []\<rparr>]\<rparr>"
    by simp_all
  have name: "sh_name (shdr (scns e' ! ndx)) = ucast ?old"
    by (simp add: e' ndx nth_append)
  have size: "sh_size (shdr (scns e' ! shstrndx e)) = ?old + of_nat (length name + 1)"
    using lt by (simp add: e' nth_append)
  have data: "sdata (scns e' ! shstrndx e) = sdata (scns e ! shstrndx e) @ [DStr (name @ [CHR 0x00])]"
    using lt by (simp add: e' nth_append)
  have name_nat: "unat (sh_name (shdr (scns e' ! ndx))) = unat ?old" if "unat ?old < 2 ^ 32"
  proof -
    have "unat (ucast ?old :: u32) = take_bit 32 (unat ?old)"
      by (simp add: unsigned_ucast_eq)
    with that show ?thesis by (simp add: name take_bit_nat_eq_self)
  qed
  have size_nat: "unat (sh_size (shdr (scns e' ! shstrndx e))) = unat ?old + (length name + 1)"
    if "unat ?old + (length name + 1) < 2 ^ 64"
  proof -
    from that have "length name + 1 < 2 ^ LENGTH(64)"
      by simp
    then have l: "unat (of_nat (length name + 1) :: u64) = length name + 1"
      by (simp only: unat_of_nat mod_less)
    with that have "unat ?old + unat (of_nat (length name + 1) :: u64) < 2 ^ LENGTH(64)"
      by simp
    then have "unat (?old + of_nat (length name + 1)) = unat ?old + unat (of_nat (length name + 1) :: u64)"
      by (simp only: unat_add_lem)
    with l show ?thesis by (simp only: size)
  qed
  show ?thesis
    using ndx name size data name_nat size_nat by (simp add: e')
qed

theorem add_section_name_is_prior_size_witness:
  "add_section obj_two ''set_sdt_instance_set'' (ucast SHT_PROGBITS) SHF_ALLOC
     = Inr (obj_two
         \<lparr>scns := (scns obj_two)[6 :=
             \<lparr>shdr = mk_shdr 53 SHT_STRTAB 108 0 0 0,
              sdata = [DStr shstrtab_chars, DStr (''set_sdt_instance_set'' @ [CHR 0x00])]\<rparr>]
           @ [\<lparr>shdr = \<lparr>sh_name = 87, sh_type = SHT_PROGBITS, sh_flags = SHF_ALLOC, sh_size = 0,
                       sh_link = 0, sh_info = 0, sh_addralign = 8, sh_entsize = 0\<rparr>,
               sdata = []\<rparr>]\<rparr>, 8)
   \<and> unat (sh_size (shdr (scns obj_two ! shstrndx obj_two))) = 87
   \<and> length ''set_sdt_instance_set'' + 1 = 21"
proof -
  have run: "add_section obj_two ''set_sdt_instance_set'' (ucast SHT_PROGBITS) SHF_ALLOC
     = Inr (obj_two
         \<lparr>scns := (scns obj_two)[6 :=
             \<lparr>shdr = mk_shdr 53 SHT_STRTAB 108 0 0 0,
              sdata = [DStr shstrtab_chars, DStr (''set_sdt_instance_set'' @ [CHR 0x00])]\<rparr>]
           @ [\<lparr>shdr = \<lparr>sh_name = 87, sh_type = SHT_PROGBITS, sh_flags = SHF_ALLOC, sh_size = 0,
                       sh_link = 0, sh_info = 0, sh_addralign = 8, sh_entsize = 0\<rparr>,
               sdata = []\<rparr>]\<rparr>, 8)"
    by code_simp
  have old: "unat (sh_size (shdr (scns obj_two ! shstrndx obj_two))) = 87"
    by code_simp
  from add_section_name_is_prior_size [OF run] old run show ?thesis by simp
qed

section \<open>Properties of the driver\<close>

lemma process_objs_append:
  "process_objs (xs @ ys) w =
     (case process_objs xs w of (None, w1) \<Rightarrow> process_objs ys w1 | (Some err, w1) \<Rightarrow> (Some err, w1))"
  by (induction xs arbitrary: w) (auto split: sum.splits)

text \<open>
  C8. When the program comes to an input file that is an ELF object of a type other than
  \<^verbatim>\<open>ET_REL\<close> (the files before it having been processed without a fatal error), it adds
  the warning for that path and changes no file; it goes on with the files after it; and
  if those are processed without a fatal error, the exit status is 0.
\<close>

theorem non_relocatable_is_skipped:
  assumes "process_objs pre w = (None, w1)"
    and "map_of (files w1) obj = Some (ElfFile e)"
    and "e_type (ehdr e) \<noteq> ET_REL"
  shows "process_obj obj w1 = Inr (w1\<lparr>warnings := warnings w1 @ [obj]\<rparr>) \<and>
         files (w1\<lparr>warnings := warnings w1 @ [obj]\<rparr>) = files w1 \<and>
         process_objs (pre @ obj # post) w =
           process_objs post (w1\<lparr>warnings := warnings w1 @ [obj]\<rparr>) \<and>
         (process_objs post (w1\<lparr>warnings := warnings w1 @ [obj]\<rparr>) = (None, w2) \<longrightarrow>
            hd (pre @ [obj]) \<noteq> ''-v'' \<longrightarrow>
            main (prog # pre @ obj # post) w = (0, w2))"
proof -
  let ?w = "w1\<lparr>warnings := warnings w1 @ [obj]\<rparr>"
  have one: "process_obj obj w1 = Inr ?w"
    using assms(2,3) by (simp add: process_obj_def)
  have loop: "process_objs (pre @ obj # post) w = process_objs post ?w"
    using assms(1) one by (simp add: process_objs_append)
  have exit0: "main (prog # pre @ obj # post) w = (0, w2)"
    if "process_objs post ?w = (None, w2)" and "hd (pre @ [obj]) \<noteq> ''-v''"
  proof -
    have "(pre @ obj # post) ! 0 \<noteq> ''-v''"
      using that(2) by (cases pre) simp_all
    then show ?thesis
      using loop that(1) by (simp add: main_def)
  qed
  from one loop exit0 show ?thesis by simp
qed

theorem non_relocatable_is_skipped_witness:
  "main [''sdtconvert'', ''x'', ''a.o'']
      \<lparr>files = [(''x'', ElfFile obj_exec), (''a.o'', ElfFile obj_two)], warnings = []\<rparr>
    = (0, \<lparr>files = [(''x'', ElfFile obj_exec), (''a.o'', ElfFile obj_two_out)], warnings = [''x'']\<rparr>)"
proof -
  let ?w = "\<lparr>files = [(''x'', ElfFile obj_exec), (''a.o'', ElfFile obj_two)], warnings = []\<rparr>"
  have 1: "process_objs [] ?w = (None, ?w)" by simp
  have 2: "map_of (files ?w) ''x'' = Some (ElfFile obj_exec)" by simp
  have 3: "e_type (ehdr obj_exec) \<noteq> ET_REL" by code_simp
  have 4: "process_objs [''a.o''] (?w\<lparr>warnings := warnings ?w @ [''x'']\<rparr>)
      = (None, \<lparr>files = [(''x'', ElfFile obj_exec), (''a.o'', ElfFile obj_two_out)], warnings = [''x'']\<rparr>)"
    by code_simp
  have 5: "hd ([] @ [''x'']) \<noteq> ''-v''" by simp
  from non_relocatable_is_skipped [OF 1 2 3, of "[''a.o'']" _ "''sdtconvert''"] 4 5
  show ?thesis by simp
qed

section \<open>Objects that are alike\<close>

lemma data_sim_refl: "data_sim d d"
  by (cases d) simp_all

lemma data_sim_trans: "data_sim a b \<Longrightarrow> data_sim b c \<Longrightarrow> data_sim a c"
  by (cases a; cases b; cases c) simp_all

lemma scn_sim_refl: "scn_sim s s"
  by (simp add: scn_sim_def list_all2_refl data_sim_refl)

lemma scn_sim_trans: "scn_sim a b \<Longrightarrow> scn_sim b c \<Longrightarrow> scn_sim a c"
  unfolding scn_sim_def
  by (auto intro: list_all2_trans [where ?P1.0 = data_sim and ?P2.0 = data_sim] data_sim_trans)

lemma elf_sim_refl: "elf_sim e e"
  by (simp add: elf_sim_def list_all2_refl scn_sim_refl)

lemma elf_sim_trans: "elf_sim a b \<Longrightarrow> elf_sim b c \<Longrightarrow> elf_sim a c"
  unfolding elf_sim_def
  by (auto intro: list_all2_trans [where ?P1.0 = scn_sim and ?P2.0 = scn_sim] scn_sim_trans)

lemma elf_sim_length: "elf_sim e e' \<Longrightarrow> length (scns e') = length (scns e)"
  by (auto simp add: elf_sim_def dest: list_all2_lengthD)

lemma elf_sim_nth: "elf_sim e e' \<Longrightarrow> i < length (scns e) \<Longrightarrow> scn_sim (scns e ! i) (scns e' ! i)"
  by (simp add: elf_sim_def list_all2_nthD)

lemma strtab_chars_sim: "list_all2 data_sim ds ds' \<Longrightarrow> strtab_chars ds = strtab_chars ds'"
proof (induction rule: list_all2_induct)
  case Nil
  show ?case by simp
next
  case (Cons d ds d' ds')
  then show ?case
    by (cases d; cases d') simp_all
qed

lemma reloc_entries_sim: "data_sim d d' \<Longrightarrow> reloc_entries d = reloc_entries d'"
  by (cases d; cases d') (simp_all add: reloc_entries_def)

lemma elf_getscn_sim:
  assumes "elf_sim e e'"
  shows "(elf_getscn e n = None \<and> elf_getscn e' n = None) \<or>
         (\<exists>s s'. elf_getscn e n = Some s \<and> elf_getscn e' n = Some s' \<and> scn_sim s s')"
  using elf_sim_length [OF assms] elf_sim_nth [OF assms, of n]
  by (cases "n < length (scns e)") (auto simp add: elf_getscn_def)

lemma elf_strptr_sim:
  assumes "elf_sim e e'"
  shows "elf_strptr e n off = elf_strptr e' n off"
proof -
  from elf_getscn_sim [OF assms, of n] show ?thesis
  proof (elim disjE conjE exE)
    assume "elf_getscn e n = None" "elf_getscn e' n = None"
    then show ?thesis by (simp add: elf_strptr_def)
  next
    fix s s'
    assume some: "elf_getscn e n = Some s" "elf_getscn e' n = Some s'" "scn_sim s s'"
    then have "shdr s = shdr s'" and "strtab_chars (sdata s) = strtab_chars (sdata s')"
      by (simp_all add: scn_sim_def strtab_chars_sim)
    with some show ?thesis by (simp add: elf_strptr_def)
  qed
qed

lemma get_scn_name_sim:
  assumes "elf_sim e e'" and "scn_sim s s'"
  shows "get_scn_name e s = get_scn_name e' s'"
proof -
  from assms have "shstrndx e = shstrndx e'" and "shdr s = shdr s'"
    by (simp_all add: elf_sim_def scn_sim_def)
  then show ?thesis
    by (simp add: get_scn_name_def elf_strptr_sim [OF assms(1)])
qed

lemma symlookup_sim:
  assumes "scn_sim s s'"
  shows "symlookup s ndx = symlookup s' ndx"
proof -
  from assms have l: "list_all2 data_sim (sdata s) (sdata s')"
    by (simp add: scn_sim_def)
  show ?thesis
  proof (cases "sdata s")
    case Nil
    with l have "sdata s' = []" by simp
    with Nil show ?thesis by (simp add: symlookup_def elf_getdata_def)
  next
    case (Cons d ds)
    with l obtain d' ds' where s': "sdata s' = d' # ds'" and d: "data_sim d d'"
      by (auto simp add: list_all2_Cons1)
    from d show ?thesis
      by (cases d; cases d') (simp_all add: symlookup_def elf_getdata_def Cons s')
  qed
qed

lemma sym_is_stub_sim:
  assumes "elf_sim e e'" and "scn_sim s s'"
  shows "sym_is_stub e (shdr s) s x = sym_is_stub e' (shdr s') s' x"
proof -
  from assms(2) have "shdr s = shdr s'" by (simp add: scn_sim_def)
  then show ?thesis
    by (simp add: sym_is_stub_def symlookup_sim [OF assms(2)] elf_strptr_sim [OF assms(1)]
        cong: sum.case_cong option.case_cong)
qed

lemma text_reloc_scn_sim:
  assumes "elf_sim e e'" and "scn_sim s s'"
  shows "text_reloc_scn e s = text_reloc_scn e' s'"
proof -
  from assms(2) have h: "shdr s = shdr s'" by (simp add: scn_sim_def)
  from elf_getscn_sim [OF assms(1), of "unat (sh_info (shdr s'))"] show ?thesis
    by (auto simp add: text_reloc_scn_def h get_scn_name_sim [OF assms(1)])
qed

lemma scn_stub_offsets_sim:
  assumes "elf_sim e e'" and "scn_sim s s'"
  shows "scn_stub_offsets e s = scn_stub_offsets e' s'"
proof -
  from assms(2) have h: "shdr s = shdr s'" and l: "list_all2 data_sim (sdata s) (sdata s')"
    by (simp_all add: scn_sim_def)
  have t: "text_reloc_scn e s = text_reloc_scn e' s'"
    by (rule text_reloc_scn_sim [OF assms])
  from elf_getscn_sim [OF assms(1), of "unat (sh_link (shdr s'))"] show ?thesis
  proof (elim disjE conjE exE)
    assume "elf_getscn e (unat (sh_link (shdr s'))) = None"
      "elf_getscn e' (unat (sh_link (shdr s'))) = None"
    then show ?thesis by (simp add: scn_stub_offsets_def h t)
  next
    fix y y'
    assume some: "elf_getscn e (unat (sh_link (shdr s'))) = Some y"
      "elf_getscn e' (unat (sh_link (shdr s'))) = Some y'" "scn_sim y y'"
    have st: "sym_is_stub e (shdr y) y = sym_is_stub e' (shdr y') y'"
      by (rule ext) (rule sym_is_stub_sim [OF assms(1) some(3)])
    show ?thesis
    proof (cases "sdata s")
      case Nil
      with l have "sdata s' = []" by simp
      with Nil some show ?thesis by (simp add: scn_stub_offsets_def h t)
    next
      case (Cons d ds)
      with l obtain d' ds' where s': "sdata s' = d' # ds'" and d: "data_sim d d'"
        by (auto simp add: list_all2_Cons1)
      from reloc_entries_sim [OF d] some st show ?thesis
        by (simp add: scn_stub_offsets_def h t Cons s')
    qed
  qed
qed

lemma set_data0_sim:
  assumes "sdata (scns e ! i) = d0 # rest" and "data_sim d0 d"
  shows "elf_sim e (set_data0 e i d)"
proof (cases "i < length (scns e)")
  case False
  then show ?thesis by (simp add: set_data0_def elf_sim_refl list_update_beyond)
next
  case True
  have "scn_sim (scns e ! i) ((scns e ! i)\<lparr>sdata := d # tl (sdata (scns e ! i))\<rparr>)"
    using assms by (simp add: scn_sim_def list_all2_refl data_sim_refl)
  then have "list_all2 scn_sim (scns e) ((scns e)[i := (scns e ! i)\<lparr>sdata := d # tl (sdata (scns e ! i))\<rparr>])"
    using True by (simp add: list_all2_conv_all_nth nth_list_update scn_sim_refl)
  then show ?thesis by (simp add: set_data0_def elf_sim_def)
qed


section \<open>The scan records the stub relocations, last first\<close>

lemma process_rel_trace:
  assumes "process_rel e eh symshdr symscn target off info plist = Inr (ret, target', info', plist')"
  shows "map offset plist' =
           (if sym_is_stub e symshdr symscn (GELF_R_SYM info) then [off] else []) @ map offset plist"
  using assms
  by (auto simp add: process_rel_def sym_is_stub_def split: sum.splits option.splits if_splits)

lemma rel_loop_trace:
  "rel_loop e eh symshdr symscn n i rels target plist = Inr (rels', target', plist') \<Longrightarrow>
   map offset plist' =
     rev (map fst (filter (\<lambda>en. sym_is_stub e symshdr symscn (snd en))
       (take (n - i) (drop i (map (\<lambda>r. (r_offset r, GELF_R_SYM (r_info r))) rels)))))
     @ map offset plist"
proof (induction e eh symshdr symscn n i rels target plist rule: rel_loop.induct)
  case (1 e eh symshdr symscn n i rels target plist)
  let ?f = "\<lambda>r. (r_offset r, GELF_R_SYM (r_info r))"
  let ?P = "\<lambda>en. sym_is_stub e symshdr symscn (snd en)"
  show ?case
  proof (cases "i < n")
    case False
    with "1.prems" show ?thesis
      by (simp add: rel_loop.simps [of _ _ _ _ n i])
  next
    case True
    with "1.prems" have ok: "gelf_ndx_ok i (length rels)"
      by (auto simp add: rel_loop.simps [of _ _ _ _ n i] split: if_splits)
    then have inb: "i < length rels"
      by (simp add: gelf_ndx_ok_def)
    from ok True "1.prems" obtain ret t1 i1 p1 where
      step: "process_rel e eh symshdr symscn target (r_offset (rels ! i)) (r_info (rels ! i)) plist
               = Inr (ret, t1, i1, p1)"
      and rest: "rel_loop e eh symshdr symscn n (Suc i)
               (if ret = 0 then rels[i := (rels ! i)\<lparr>r_info := i1\<rparr>] else rels) t1 p1
               = Inr (rels', target', plist')"
      by (auto simp add: rel_loop.simps [of _ _ _ _ n i] split: sum.splits)
    let ?rels2 = "if ret = 0 then rels[i := (rels ! i)\<lparr>r_info := i1\<rparr>] else rels"
    have later: "drop (Suc i) (map ?f ?rels2) = drop (Suc i) (map ?f rels)"
      by (simp add: drop_map)
    from "1.IH" [OF True ok step refl refl refl rest]
    have ih: "map offset plist' =
        rev (map fst (filter ?P (take (n - Suc i) (drop (Suc i) (map ?f rels))))) @ map offset p1"
      by (simp only: later)
    have p1: "map offset p1 =
        (if ?P (?f (rels ! i)) then [r_offset (rels ! i)] else []) @ map offset plist"
      using process_rel_trace [OF step] by simp
    have here: "take (n - i) (drop i (map ?f rels)) =
        ?f (rels ! i) # take (n - Suc i) (drop (Suc i) (map ?f rels))"
    proof -
      have "drop i (map ?f rels) = ?f (rels ! i) # drop (Suc i) (map ?f rels)"
        using inb by (simp add: Cons_nth_drop_Suc [symmetric])
      moreover have "n - i = Suc (n - Suc i)"
        using True by simp
      ultimately show ?thesis by simp
    qed
    show ?thesis
      by (simp add: here ih p1)
  qed
qed

lemma rel_loop_data_sim:
  assumes "rel_loop e eh symshdr symscn n i rels target plist = Inr (rels', target', plist')"
  shows "map (\<lambda>r. (r_offset r, GELF_R_SYM (r_info r))) rels' =
         map (\<lambda>r. (r_offset r, GELF_R_SYM (r_info r))) rels"
proof -
  from rel_loop_frame [OF assms]
  have o: "map r_offset rels' = map r_offset rels"
    and y: "map (\<lambda>r. GELF_R_SYM (r_info r)) rels' = map (\<lambda>r. GELF_R_SYM (r_info r)) rels"
    by simp_all
  have "zip (map r_offset rels') (map (\<lambda>r. GELF_R_SYM (r_info r)) rels') =
        zip (map r_offset rels) (map (\<lambda>r. GELF_R_SYM (r_info r)) rels)"
    by (simp only: o y)
  then show ?thesis
    by (simp add: zip_map_map zip_same_conv_map comp_def)
qed


lemma process_reloc_scn_result:
  assumes run: "process_reloc_scn e eh (shdr (scns e ! i)) i plist = Inr (e', plist')"
    and ty: "sh_type (shdr (scns e ! i)) = SHT_REL \<or> sh_type (shdr (scns e ! i)) = SHT_RELA"
  shows "elf_sim e e' \<and>
         map offset plist' = rev (scn_stub_offsets e (scns e ! i)) @ map offset plist"
proof -
  let ?sh = "shdr (scns e ! i)"
  let ?ti = "unat (sh_info ?sh)"
  let ?n = "unat (sh_size ?sh div sh_entsize ?sh)"
  from run obtain targscn targdata nm where
    targ: "elf_getscn e ?ti = Some targscn"
    and tdata: "elf_getdata targscn = Some targdata"
    and name: "get_scn_name e targscn = Some nm"
    by (auto simp add: process_reloc_scn_def split: option.splits)
  from targ have targscn: "targscn = scns e ! ?ti"
    by (auto simp add: elf_getscn_def split: if_splits)
  from tdata obtain trest where tsd: "sdata (scns e ! ?ti) = targdata # trest"
    by (auto simp add: elf_getdata_def targscn split: list.splits)
  show ?thesis
  proof (cases "nm = ''.text''")
    case False
    with run targ tdata name have "e' = e" "plist' = plist"
      by (simp_all add: process_reloc_scn_def)
    moreover have "scn_stub_offsets e (scns e ! i) = []"
      using False targ name by (simp add: scn_stub_offsets_def text_reloc_scn_def)
    ultimately show ?thesis by (simp add: elf_sim_refl)
  next
    case True
    with run targ tdata name obtain symscn where
      sym: "elf_getscn e (unat (sh_link ?sh)) = Some symscn"
      by (auto simp add: process_reloc_scn_def split: option.splits)
    have isrel: "text_reloc_scn e (scns e ! i)"
      using ty targ name True by (simp add: text_reloc_scn_def)
    show ?thesis
    proof (cases "sdata (scns e ! i)")
      case Nil
      with run targ tdata name True sym have "e' = e" "plist' = plist"
        by (simp_all add: process_reloc_scn_def elf_getdata_def)
      moreover have "scn_stub_offsets e (scns e ! i) = []"
        using Nil sym by (simp add: scn_stub_offsets_def)
      ultimately show ?thesis by (simp add: elf_sim_refl)
    next
      case (Cons reldata rrest)
      then have rdata: "elf_getdata (scns e ! i) = Some reldata"
        by (simp add: elf_getdata_def)
      from run targ tdata name True sym rdata have ent: "sh_entsize ?sh \<noteq> 0"
        by (auto simp add: process_reloc_scn_def split: if_splits)
      show ?thesis
      proof (cases "?n = 0")
        case True
        with run targ tdata name \<open>nm = ''.text''\<close> sym rdata ent have "e' = e" "plist' = plist"
          by (simp_all add: process_reloc_scn_def)
        moreover have "scn_stub_offsets e (scns e ! i) = []"
          using True sym Cons by (simp add: scn_stub_offsets_def)
        ultimately show ?thesis by (simp add: elf_sim_refl)
      next
        case False
        note unfold = process_reloc_scn_def targ tdata name \<open>nm = ''.text''\<close> sym rdata ent False
        have stubs: "scn_stub_offsets e (scns e ! i) =
            map fst (filter (\<lambda>en. sym_is_stub e (shdr symscn) symscn (snd en))
              (take ?n (reloc_entries reldata)))"
          using isrel sym Cons by (simp add: scn_stub_offsets_def)
        show ?thesis
        proof (cases "sh_type ?sh = SHT_REL")
          case True
          from run have run1:
            "(case reldata of
                DRel rels \<Rightarrow>
                  (case targdata of
                     DBytes target \<Rightarrow>
                       (case rel_loop e eh (shdr symscn) symscn ?n 0 rels target plist of
                          Inl err \<Rightarrow> Inl err
                        | Inr (rels', target', plist') \<Rightarrow>
                            Inr (set_data0 (set_data0 e ?ti (DBytes target')) i (DRel rels'), plist'))
                   | _ \<Rightarrow> Inl Fault_view)
              | _ \<Rightarrow> Inl E_getrel) = Inr (e', plist')"
            by (simp add: unfold True)
          then obtain rels where rd: "reldata = DRel rels"
            by (cases reldata) simp_all
          from run1 obtain target where td: "targdata = DBytes target"
            by (cases targdata) (simp_all add: rd)
          from run1 obtain rels' target' where
            loop: "rel_loop e eh (shdr symscn) symscn ?n 0 rels target plist
                         = Inr (rels', target', plist')"
            and e': "e' = set_data0 (set_data0 e ?ti (DBytes target')) i (DRel rels')"
            by (cases "rel_loop e eh (shdr symscn) symscn ?n 0 rels target plist")
               (auto simp add: rd td)
          let ?e1 = "set_data0 e ?ti (DBytes target')"
          have s1: "elf_sim e ?e1"
            by (rule set_data0_sim [OF tsd]) (simp add: td)
          have ne: "i \<noteq> ?ti"
            using Cons tsd rd td by auto
          then have "sdata (scns ?e1 ! i) = DRel rels # rrest"
            using Cons rd by (simp add: set_data0_def)
          moreover have "data_sim (DRel rels) (DRel rels')"
            using rel_loop_data_sim [OF loop] by (simp add: reloc_entries_def)
          ultimately have s2: "elf_sim ?e1 e'"
            unfolding e' by (rule set_data0_sim)
          have tr: "map offset plist' = rev (scn_stub_offsets e (scns e ! i)) @ map offset plist"
            using rel_loop_trace [OF loop] by (simp add: stubs rd reloc_entries_def)
          from elf_sim_trans [OF s1 s2] tr show ?thesis by simp
        next
          case notrel: False
          with ty have rela: "sh_type ?sh = SHT_RELA"
            by simp
          have types: "SHT_RELA \<noteq> SHT_REL"
            by (simp add: SHT_RELA_def SHT_REL_def)
          from run have run1:
            "(case reldata of
                DRela rels \<Rightarrow>
                  (case targdata of
                     DBytes target \<Rightarrow>
                       (case rel_loop e eh (shdr symscn) symscn ?n 0 rels target plist of
                          Inl err \<Rightarrow> Inl err
                        | Inr (rels', target', plist') \<Rightarrow>
                            Inr (set_data0 (set_data0 e ?ti (DBytes target')) i (DRela rels'), plist'))
                   | _ \<Rightarrow> Inl Fault_view)
              | _ \<Rightarrow> Inl E_getrel) = Inr (e', plist')"
            by (simp add: unfold rela types)
          then obtain rels where rd: "reldata = DRela rels"
            by (cases reldata) simp_all
          from run1 obtain target where td: "targdata = DBytes target"
            by (cases targdata) (simp_all add: rd)
          from run1 obtain rels' target' where
            loop: "rel_loop e eh (shdr symscn) symscn ?n 0 rels target plist
                         = Inr (rels', target', plist')"
            and e': "e' = set_data0 (set_data0 e ?ti (DBytes target')) i (DRela rels')"
            by (cases "rel_loop e eh (shdr symscn) symscn ?n 0 rels target plist")
               (auto simp add: rd td)
          let ?e1 = "set_data0 e ?ti (DBytes target')"
          have s1: "elf_sim e ?e1"
            by (rule set_data0_sim [OF tsd]) (simp add: td)
          have ne: "i \<noteq> ?ti"
            using Cons tsd rd td by auto
          then have "sdata (scns ?e1 ! i) = DRela rels # rrest"
            using Cons rd by (simp add: set_data0_def)
          moreover have "data_sim (DRela rels) (DRela rels')"
            using rel_loop_data_sim [OF loop] by (simp add: reloc_entries_def)
          ultimately have s2: "elf_sim ?e1 e'"
            unfolding e' by (rule set_data0_sim)
          have tr: "map offset plist' = rev (scn_stub_offsets e (scns e ! i)) @ map offset plist"
            using rel_loop_trace [OF loop] by (simp add: stubs rd reloc_entries_def)
          from elf_sim_trans [OF s1 s2] tr show ?thesis by simp
        qed
      qed
    qed
  qed
qed

lemma scan_scns_result:
  "scan_scns eh ixs e plist = Inr (e', plist') \<Longrightarrow> \<forall>i\<in>set ixs. i < length (scns e) \<Longrightarrow>
   elf_sim e e' \<and>
   map offset plist' =
     rev (concat (map (\<lambda>i. scn_stub_offsets e (scns e ! i)) ixs)) @ map offset plist"
proof (induction ixs arbitrary: e plist)
  case Nil
  then show ?case by (simp add: elf_sim_refl)
next
  case (Cons i rest)
  show ?case
  proof (cases "sh_type (shdr (scns e ! i)) = SHT_REL \<or> sh_type (shdr (scns e ! i)) = SHT_RELA")
    case False
    with Cons.prems have run: "scan_scns eh rest e plist = Inr (e', plist')"
      by simp
    have "scn_stub_offsets e (scns e ! i) = []"
      using False by (simp add: scn_stub_offsets_def text_reloc_scn_def)
    with Cons.IH [OF run] Cons.prems(2) show ?thesis by simp
  next
    case True
    with Cons.prems obtain e1 p1 where
      one: "process_reloc_scn e eh (shdr (scns e ! i)) i plist = Inr (e1, p1)"
      and run: "scan_scns eh rest e1 p1 = Inr (e', plist')"
      by (auto split: sum.splits)
    from process_reloc_scn_result [OF one True]
    have s1: "elf_sim e e1"
      and t1: "map offset p1 = rev (scn_stub_offsets e (scns e ! i)) @ map offset plist"
      by simp_all
    have inb: "\<forall>j\<in>set rest. j < length (scns e1)"
      using Cons.prems(2) elf_sim_length [OF s1] by simp
    from Cons.IH [OF run inb]
    have s2: "elf_sim e1 e'"
      and t2: "map offset plist' =
        rev (concat (map (\<lambda>j. scn_stub_offsets e1 (scns e1 ! j)) rest)) @ map offset p1"
      by simp_all
    have same: "map (\<lambda>j. scn_stub_offsets e1 (scns e1 ! j)) rest =
                map (\<lambda>j. scn_stub_offsets e (scns e ! j)) rest"
    proof (rule map_cong [OF refl])
      fix j assume "j \<in> set rest"
      with Cons.prems(2) have "j < length (scns e)" by simp
      from scn_stub_offsets_sim [OF s1 elf_sim_nth [OF s1 this]]
      show "scn_stub_offsets e1 (scns e1 ! j) = scn_stub_offsets e (scns e ! j)" by simp
    qed
    from elf_sim_trans [OF s1 s2] t1 t2 same show ?thesis by simp
  qed
qed


section \<open>The emission appends one record per instance, in list order\<close>

lemma record_instance_result:
  assumes "record_instance e instscn relscn inst = Inr e'"
  shows "e' = e\<lparr>scns := (scns e)[instscn := (scns e ! instscn)
            \<lparr>sdata := sdata (scns e ! instscn) @ [DBytes (sdt_instance_bytes (offset inst))],
             shdr := (shdr (scns e ! instscn))\<lparr>sh_size := sh_size (shdr (scns e ! instscn)) + 16\<rparr>\<rparr>]\<rparr>"
proof (cases "instscn < length (scns e)")
  case True
  with assms show ?thesis
    by (auto simp add: record_instance_def Let_def split: sum.splits option.splits if_splits)
next
  case False
  with assms show ?thesis
    by (auto simp add: record_instance_def Let_def list_update_beyond
        split: sum.splits option.splits if_splits)
qed

lemma record_all_result:
  "record_all e instscn relscn plist = Inr e' \<Longrightarrow> instscn < length (scns e) \<Longrightarrow>
   length (scns e') = length (scns e) \<and>
   sdata (scns e' ! instscn) =
     sdata (scns e ! instscn) @ map (\<lambda>inst. DBytes (sdt_instance_bytes (offset inst))) plist \<and>
   (\<forall>j. j \<noteq> instscn \<longrightarrow> scns e' ! j = scns e ! j)"
proof (induction plist arbitrary: e)
  case Nil
  then show ?case by simp
next
  case (Cons inst rest)
  from Cons.prems(1) obtain e1 where
    one: "record_instance e instscn relscn inst = Inr e1"
    and run: "record_all e1 instscn relscn rest = Inr e'"
    by (auto split: sum.splits)
  note e1 = record_instance_result [OF one]
  have len: "length (scns e1) = length (scns e)"
    by (subst e1) simp
  have data: "sdata (scns e1 ! instscn) =
      sdata (scns e ! instscn) @ [DBytes (sdt_instance_bytes (offset inst))]"
    using Cons.prems(2) by (subst e1) simp
  have other: "scns e1 ! j = scns e ! j" if "j \<noteq> instscn" for j
    using that by (subst e1) simp
  from Cons.IH [OF run] Cons.prems(2) len
  have "length (scns e') = length (scns e1)"
    and "sdata (scns e' ! instscn) =
      sdata (scns e1 ! instscn) @ map (\<lambda>inst. DBytes (sdt_instance_bytes (offset inst))) rest"
    and "\<forall>j. j \<noteq> instscn \<longrightarrow> scns e' ! j = scns e1 ! j"
    by simp_all
  with len data other show ?case by simp
qed

lemma all_bytes_records: "all_bytes (map (\<lambda>x. DBytes (f x)) xs) = Some (concat (map f xs))"
  by (induction xs) simp_all

lemma flush_data_bytes:
  "ds \<noteq> [] \<Longrightarrow> all_bytes ds = Some bs \<Longrightarrow> flush_data ds = [DBytes bs]"
  by (cases ds) (simp_all add: flush_data_def)

lemma flush_records:
  assumes "xs \<noteq> []"
  shows "flush_data (map (\<lambda>x. DBytes (f x)) xs) = [DBytes (concat (map f xs))]"
  using assms by (intro flush_data_bytes all_bytes_records) simp


section \<open>What \<^verbatim>\<open>process_obj\<close> writes for an object with probe call sites\<close>

lemma process_obj_emits:
  assumes fl: "map_of (files w) obj = Some (ElfFile e)"
    and rel: "e_type (ehdr e) = ET_REL"
    and run: "process_obj obj w = Inr w'"
    and stubs: "stub_offsets e \<noteq> []"
  shows "\<exists>e'. map_of (files w') obj = Some (ElfFile e') \<and>
           length (scns e') = length (scns e) + 2 \<and>
           sdata (scns e' ! length (scns e)) =
             [DBytes (concat (map sdt_instance_bytes (rev (stub_offsets e))))] \<and>
           sdata (scns e' ! Suc (length (scns e))) = []"
proof -
  let ?n = "length (scns e)"
  from run fl rel obtain e1 plist where
    scan: "scan_scns (ehdr e) [1..<?n] e [] = Inr (e1, plist)"
    by (auto simp add: process_obj_def split: sum.splits)
  have "\<forall>i\<in>set [1..<?n]. i < ?n" by simp
  from scan_scns_result [OF scan this]
  have sim: "elf_sim e e1" and offs: "map offset plist = rev (stub_offsets e)"
    by (simp_all add: stub_offsets_def)
  from offs stubs have ne: "plist \<noteq> []" by auto
  have len1: "length (scns e1) = ?n"
    by (rule elf_sim_length [OF sim])
  from run fl rel scan ne obtain e2 instscn e3 instrelscn e4 where
    add1: "add_section e1 ''set_sdt_instance_set'' (ucast SHT_PROGBITS) SHF_ALLOC = Inr (e2, instscn)"
    and add2: "add_section e2 ''.relaset_sdt_instance_set'' (ucast SHT_RELA) 0 = Inr (e3, instrelscn)"
    and rec: "record_all e3 instscn instrelscn plist = Inr e4"
    and w': "w' = w\<lparr>files := AList.update obj (ElfFile (elf_update e4)) (files w)\<rparr>"
    by (auto simp add: process_obj_def split: sum.splits)
  from add_section_result [OF add1]
  have str1: "shstrndx e1 < ?n" and inst: "instscn = ?n"
    and len2: "length (scns e2) = Suc ?n" and str2: "shstrndx e2 = shstrndx e1"
    and new1: "sdata (scns e2 ! ?n) = []"
    by (auto simp add: len1 nth_append)
  from add_section_result [OF add2]
  have instrel: "instrelscn = Suc ?n" and len3: "length (scns e3) = Suc (Suc ?n)"
    and e3: "scns e3 = (scns e2)[shstrndx e2 :=
               \<lparr>shdr = (shdr (scns e2 ! shstrndx e2))
                  \<lparr>sh_size := sh_size (shdr (scns e2 ! shstrndx e2))
                               + of_nat (length ''.relaset_sdt_instance_set'' + 1)\<rparr>,
                sdata = sdata (scns e2 ! shstrndx e2) @ [DStr (''.relaset_sdt_instance_set'' @ [CHR 0x00])]\<rparr>]
             @ [\<lparr>shdr = zero_shdr
                  \<lparr>sh_name := ucast (sh_size (shdr (scns e2 ! shstrndx e2))),
                   sh_type := ucast (ucast SHT_RELA :: u64), sh_flags := 0, sh_addralign := 8\<rparr>,
                 sdata = []\<rparr>]"
    by (auto simp add: len2)
  have d3: "sdata (scns e3 ! ?n) = []"
    using str1 new1 by (simp add: e3 nth_append len2 str2)
  have r3: "sdata (scns e3 ! Suc ?n) = []"
    by (simp add: e3 nth_append len2)
  have "instscn < length (scns e3)"
    by (simp add: inst len3)
  from record_all_result [OF rec this]
  have len4: "length (scns e4) = Suc (Suc ?n)"
    and d4: "sdata (scns e4 ! ?n) = map (\<lambda>i. DBytes (sdt_instance_bytes (offset i))) plist"
    and r4: "sdata (scns e4 ! Suc ?n) = []"
    by (simp_all add: inst len3 d3 r3)
  let ?e' = "elf_update e4"
  have "map_of (files w') obj = Some (ElfFile ?e')"
    by (simp add: w' update_conv')
  moreover have "length (scns ?e') = ?n + 2"
    by (simp add: elf_update_def len4)
  moreover have "sdata (scns ?e' ! ?n) =
      [DBytes (concat (map sdt_instance_bytes (rev (stub_offsets e))))]"
  proof -
    have "sdata (scns ?e' ! ?n) = flush_data (sdata (scns e4 ! ?n))"
      by (simp add: elf_update_def len4)
    also have "\<dots> = [DBytes (concat (map (\<lambda>i. sdt_instance_bytes (offset i)) plist))]"
      unfolding d4 by (rule flush_records [OF ne])
    also have "map (\<lambda>i. sdt_instance_bytes (offset i)) plist =
               map sdt_instance_bytes (map offset plist)"
      by simp
    finally show ?thesis by (simp only: offs)
  qed
  moreover have "sdata (scns ?e' ! Suc ?n) = []"
    by (simp add: elf_update_def len4 r4 flush_data_def)
  ultimately show ?thesis by blast
qed


text \<open>
  C4 (as amended). When the program processes a relocatable object that has probe-stub
  relocations and does not fail, the file it writes has two more sections, and the first
  of them, the instance section, holds exactly one 16-byte record per probe-stub
  relocation, in the reverse of the order in which the relocations were processed: the
  record of the relocation processed last comes first. (The rewriter inserts each
  instance at the head of the list, and the emission walks the list from its head.)
\<close>

theorem records_in_reverse_processing_order:
  assumes "map_of (files w) obj = Some (ElfFile e)"
    and "e_type (ehdr e) = ET_REL"
    and "process_obj obj w = Inr w'"
    and "stub_offsets e \<noteq> []"
  shows "\<exists>e'. map_of (files w') obj = Some (ElfFile e') \<and>
           length (scns e') = length (scns e) + 2 \<and>
           sdata (scns e' ! length (scns e)) =
             [DBytes (concat (map sdt_instance_bytes (rev (stub_offsets e))))]"
  using process_obj_emits [OF assms] by blast

theorem records_in_reverse_processing_order_witness:
  "process_obj ''a.o'' (world_of ''a.o'' obj_two) = Inr (world_of ''a.o'' obj_two_out)
   \<and> stub_offsets obj_two = [1, 7]
   \<and> sdata (scns obj_two_out ! length (scns obj_two)) =
       [DBytes (concat (map sdt_instance_bytes (rev (stub_offsets obj_two))))]"
proof -
  have 1: "map_of (files (world_of ''a.o'' obj_two)) ''a.o'' = Some (ElfFile obj_two)"
    by (simp add: world_of_def)
  have 2: "e_type (ehdr obj_two) = ET_REL"
    by code_simp
  have 3: "process_obj ''a.o'' (world_of ''a.o'' obj_two) = Inr (world_of ''a.o'' obj_two_out)"
    by code_simp
  have 4: "stub_offsets obj_two = [1, 7]"
    by code_simp
  then have 5: "stub_offsets obj_two \<noteq> []"
    by simp
  from records_in_reverse_processing_order [OF 1 2 3 5]
  have "sdata (scns obj_two_out ! length (scns obj_two)) =
       [DBytes (concat (map sdt_instance_bytes (rev (stub_offsets obj_two))))]"
    by (simp add: world_of_def)
  with 3 4 show ?thesis by simp
qed

section \<open>The resolver and short probe names\<close>

text \<open>
  The match compares the instance's name past the 15 characters of the stub prefix with a
  name past its first four characters, and only for names of at least 15 characters. So
  for an instance whose name has fewer than 11 characters after the prefix no name can
  match, whatever the probe linker set holds: the resolver leaves \<^verbatim>\<open>found\<close> as it was,
  and \<^verbatim>\<open>record_instance\<close> fails.
\<close>

lemma probe_inner_short:
  "probe_inner e symshdr symtab isym n infos i found = Inr (i', found') \<Longrightarrow>
   length isym < prefixlen + 11 \<Longrightarrow> found' = found"
proof (induction e symshdr symtab isym n infos i found rule: probe_inner.induct)
  case (1 e symshdr symtab isym n infos i found)
  show ?case
  proof (cases "i < n \<and> gelf_ndx_ok i (length infos)")
    case False
    with "1.prems"(1) show ?thesis
      by (auto simp add: probe_inner.simps [of _ _ _ _ n infos i] split: if_splits)
  next
    case True
    with "1.prems"(1) obtain sm nm where
      sm: "symlookup symtab (ucast (GELF_R_SYM (infos ! i))) = Inr sm"
      and nm: "elf_strptr e (unat (sh_link symshdr)) (ucast (st_name sm)) = Some nm"
      by (auto simp add: probe_inner.simps [of _ _ _ _ n infos i] split: sum.splits option.splits)
    have nomatch: "drop (length ''sdt_'') nm \<noteq> drop prefixlen isym" if "\<not> length nm < prefixlen"
    proof
      assume "drop (length ''sdt_'') nm = drop prefixlen isym"
      then have "length (drop (length ''sdt_'') nm) = length (drop prefixlen isym)"
        by simp
      with that "1.prems"(2) show False
        by (simp add: prefixlen_def probe_prefix_def)
    qed
    show ?thesis
    proof (cases "length nm < prefixlen")
      case short: True
      with True sm nm "1.prems"(1)
      have "probe_inner e symshdr symtab isym n infos (Suc i) found = Inr (i', found')"
        by (simp add: probe_inner.simps [of _ _ _ _ n infos i])
      from "1.IH"(1) [OF _ _ sm nm short this "1.prems"(2)] True show ?thesis by simp
    next
      case long: False
      with True sm nm "1.prems"(1) nomatch [OF long]
      have "probe_inner e symshdr symtab isym n infos (Suc i) found = Inr (i', found')"
        by (simp add: probe_inner.simps [of _ _ _ _ n infos i])
      from "1.IH"(2) [OF _ _ sm nm long nomatch [OF long] this "1.prems"(2)] True
      show ?thesis by simp
    qed
  qed
qed

lemma probe_outer_short:
  "probe_outer e symshdr symtab isym prs ds i found = Inr found' \<Longrightarrow>
   length isym < prefixlen + 11 \<Longrightarrow> found' = found"
proof (induction ds arbitrary: i found)
  case Nil
  then show ?case by simp
next
  case (Cons d ds)
  from Cons.prems(1) obtain i1 f1 where
    one: "probe_inner e symshdr symtab isym (unat (sh_size prs div sh_entsize prs))
            (reloc_infos (sh_type prs) d) i found = Inr (i1, f1)"
    and rest: "probe_outer e symshdr symtab isym prs ds i1 f1 = Inr found'"
    by (auto split: if_splits sum.splits)
  from probe_inner_short [OF one Cons.prems(2)] Cons.IH [OF rest Cons.prems(2)]
  show ?case by simp
qed

lemma record_instance_short:
  assumes "length (symname inst) < prefixlen + 11"
  shows "\<exists>err. record_instance e instscn relscn inst = Inl err"
proof (cases "record_instance e instscn relscn inst")
  case (Inl err)
  then show ?thesis by simp
next
  case (Inr e')
  then obtain e1 symshdr symtab prs ds where
    "probe_outer e1 symshdr symtab (symname inst) prs ds 0 False = Inr True"
    by (auto simp add: record_instance_def Let_def split: sum.splits option.splits if_splits)
  from probe_outer_short [OF this assms] show ?thesis by simp
qed


section \<open>The program on the example objects\<close>

lemma run_obj_two:
  "main [''sdtconvert'', ''a.o''] (world_of ''a.o'' obj_two) = (0, world_of ''a.o'' obj_two_out)"
  by code_simp

lemma rerun_obj_two:
  "main [''sdtconvert'', ''a.o''] (world_of ''a.o'' obj_two_out) = (1, world_of ''a.o'' obj_two_out)"
  by code_simp

text \<open>
  C2, counterexample. The program is run on \<open>obj_two\<close> and exits with 0, leaving
  \<open>obj_two_out\<close>; run again on that output it exits with 1: the scan selects the first
  neutralized relocation again and aborts on its opcode byte.
\<close>

theorem second_run_aborts:
  "main [''sdtconvert'', ''a.o''] (world_of ''a.o'' obj_two) = (0, world_of ''a.o'' obj_two_out)
   \<and> main [''sdtconvert'', ''a.o''] (world_of ''a.o'' obj_two_out) = (1, world_of ''a.o'' obj_two_out)
   \<and> process_obj ''a.o'' (world_of ''a.o'' obj_two_out)
       = Inl (E_opcode 0x90 ''__dtrace_probe_tcp_send_ok'' 1)"
proof -
  have "process_obj ''a.o'' (world_of ''a.o'' obj_two_out)
       = Inl (E_opcode 0x90 ''__dtrace_probe_tcp_send_ok'' 1)"
    by code_simp
  with run_obj_two rerun_obj_two show ?thesis by simp
qed

text \<open>
  C1. The spec's scenario of a single direct call: the object \<open>obj_foo\<close> calls
  \<^verbatim>\<open>__dtrace_probe_foo\<close>, and the one relocation of its probe linker set references the
  symbol \<^verbatim>\<open>sdt_foo\<close>. The scan finds the call site, but the resolver skips \<^verbatim>\<open>sdt_foo\<close>,
  whose 7 characters are fewer than the 15 of the stub prefix, finds no relocation, and the
  program exits with 1; the file is left as it was.
\<close>

theorem sdt_foo_not_resolved:
  "stub_offsets obj_foo = [0x10]
   \<and> reloc_infos SHT_RELA (hd (sdata (scns obj_foo ! 7))) = [0x0000000200000001]
   \<and> symlookup (scns obj_foo ! 4) (ucast (GELF_R_SYM 0x0000000200000001))
       = Inr \<lparr>st_name = 20, st_info = 0x01\<rparr>
   \<and> elf_strptr obj_foo 5 20 = Some ''sdt_foo''
   \<and> process_obj ''foo.o'' (world_of ''foo.o'' obj_foo) = Inl (E_no_probe_reloc ''__dtrace_probe_foo'')
   \<and> main [''sdtconvert'', ''foo.o''] (world_of ''foo.o'' obj_foo) = (1, world_of ''foo.o'' obj_foo)"
  by code_simp

text \<open>
  C3. The program is run on \<open>obj_two\<close>, which has two probe-stub relocations. The output
  has two records in \<^verbatim>\<open>set_sdt_instance_set\<close> and no relocation in
  \<^verbatim>\<open>.relaset_sdt_instance_set\<close>: the section is created and left empty.
\<close>

theorem no_instance_relocations_emitted:
  "length (stub_offsets obj_two) = 2
   \<and> main [''sdtconvert'', ''a.o''] (world_of ''a.o'' obj_two) = (0, world_of ''a.o'' obj_two_out)
   \<and> count_records obj_two_out = 2
   \<and> count_relocations obj_two_out = 0
   \<and> scn_data_named obj_two_out ''.relaset_sdt_instance_set'' = []"
proof -
  have "length (stub_offsets obj_two) = 2" by code_simp
  moreover have "count_records obj_two_out = 2" by code_simp
  moreover have "count_relocations obj_two_out = 0" by code_simp
  moreover have "scn_data_named obj_two_out ''.relaset_sdt_instance_set'' = []" by code_simp
  ultimately show ?thesis using run_obj_two by simp
qed

text \<open>
  C4, counterexample. In \<open>obj_two\<close> the relocation at offset 1 is processed before the one
  at offset 7. The records of the output are the one for offset 7 and then the one for
  offset 1.
\<close>

theorem records_not_in_processing_order:
  "stub_offsets obj_two = [1, 7]
   \<and> main [''sdtconvert'', ''a.o''] (world_of ''a.o'' obj_two) = (0, world_of ''a.o'' obj_two_out)
   \<and> scn_data_named obj_two_out ''set_sdt_instance_set''
       = [DBytes (sdt_instance_bytes 7 @ sdt_instance_bytes 1)]
   \<and> sdt_instance_bytes 7 @ sdt_instance_bytes 1 \<noteq> sdt_instance_bytes 1 @ sdt_instance_bytes 7"
proof -
  have "stub_offsets obj_two = [1, 7]" by code_simp
  moreover have "scn_data_named obj_two_out ''set_sdt_instance_set''
       = [DBytes (sdt_instance_bytes 7 @ sdt_instance_bytes 1)]" by code_simp
  moreover have "sdt_instance_bytes 7 @ sdt_instance_bytes 1
       \<noteq> sdt_instance_bytes 1 @ sdt_instance_bytes 7" by code_simp
  ultimately show ?thesis using run_obj_two by simp
qed


end
